theory Spec2Isabelle
  imports Complex_Main "HOL-Library.Multiset"
begin

section \<open>The Pagination component (web/components/Pagination.tsx)\<close>

text \<open>
  The component receives \<open>currentPage\<close>, \<open>totalPages\<close> and \<open>totalCount\<close>. Its caller
  computes \<open>totalPages\<close> with \<open>Math.ceil\<close> and \<open>currentPage\<close> with \<open>parseInt\<close>, so the
  properties are page numbers and are modelled as (unbounded) integers.

  The array \<open>pages\<close> has the element type \<open>number | string\<close>: an entry is a page number
  or the string \<open>'...'\<close>.
\<close>

datatype page_item = Num int | Str string

text \<open>
  The loop \<open>for (let i = a; i <= b; i++) pages.push(i)\<close>, with the array built so far as
  accumulator. It terminates because \<open>b + 1 - i\<close> decreases.
\<close>

function push_pages :: "int \<Rightarrow> int \<Rightarrow> page_item list \<Rightarrow> page_item list" where
  "push_pages i b pages = (if i \<le> b then push_pages (i + 1) b (pages @ [Num i]) else pages)"
  by pat_completeness auto
termination
  by (relation "measure (\<lambda>(i, b, pages). nat (b + 1 - i))") auto

declare push_pages.simps [simp del]

definition getPageNumbers :: "int \<Rightarrow> int \<Rightarrow> page_item list" where
  "getPageNumbers currentPage totalPages =
     (let showPages = 5 in
      if totalPages \<le> showPages then push_pages 1 totalPages []
      else
        let pages = [Num 1];
            pages = (if currentPage > 3 then pages @ [Str ''...''] else pages);
            start = max 2 (currentPage - 1);
            end' = min (totalPages - 1) (currentPage + 1);
            pages = push_pages start end' pages;
            pages = (if currentPage < totalPages - 2 then pages @ [Str ''...''] else pages)
        in pages @ [Num totalPages])"

text \<open>
  What the component renders: \<open>null\<close> (here \<open>None\<close>) when there is at most one page,
  otherwise the previous button (disabled on page 1), one button or ellipsis per entry of
  \<open>getPageNumbers()\<close> (the button of the current page highlighted), the next button
  (disabled on the last page) and the line "Page c of t, n total jobs". The markup and
  the click handlers are not modelled.
\<close>

record pagination_view =
  prevDisabled :: bool
  pageButtons :: "(page_item \<times> bool) list"
  nextDisabled :: bool
  pageInfo :: "int \<times> int \<times> int"

definition Pagination :: "int \<Rightarrow> int \<Rightarrow> int \<Rightarrow> pagination_view option" where
  "Pagination currentPage totalPages totalCount =
     (if totalPages \<le> 1 then None
      else Some \<lparr>prevDisabled = (currentPage = 1),
                 pageButtons = map (\<lambda>p. (p, p = Num currentPage))
                                   (getPageNumbers currentPage totalPages),
                 nextDisabled = (currentPage = totalPages),
                 pageInfo = (currentPage, totalPages, totalCount)\<rparr>)"

section \<open>The JavaScript built-ins the handlers use\<close>

text \<open>
  The handlers compute with JavaScript numbers (IEEE 754 doubles with \<open>NaN\<close>, two
  infinities and two zeros) through \<open>parseInt\<close>, the literals \<open>1\<close> and \<open>20\<close>, the
  operators \<open>-\<close>, \<open>*\<close>, \<open>/\<close> and \<open><\<close>, and \<open>Math.ceil\<close>; and \<open>NextResponse.json\<close>
  serialises the rows it is given, which throws a \<open>TypeError\<close> on a value that JSON
  cannot hold (a \<open>BigInt\<close> column, for one). These belong to the platform, not to the
  repository. They are parameters of the model: \<open>'n\<close> is the type of numbers, and
  nothing is assumed of the operations where a property does not say so.
\<close>

record ('n, 'row) js_platform =
  js_parseInt :: "string \<Rightarrow> 'n"
  js_number :: "int \<Rightarrow> 'n"
  js_minus :: "'n \<Rightarrow> 'n \<Rightarrow> 'n"
  js_times :: "'n \<Rightarrow> 'n \<Rightarrow> 'n"
  js_divide :: "'n \<Rightarrow> 'n \<Rightarrow> 'n"
  js_Math_ceil :: "'n \<Rightarrow> 'n"
  js_less :: "'n \<Rightarrow> 'n \<Rightarrow> bool"
  js_JSON_serializable :: "'row \<Rightarrow> bool"



section \<open>The jobs API and the jobs page (web/app/api/jobs/route.ts, web/app/jobs/page.tsx)\<close>

text \<open>
  The query string: \<open>searchParams.get(k)\<close> is the first value stored under \<open>k\<close>, or
  \<open>null\<close>. The page component receives the same parameters as an object with optional
  string properties. \<open>x || d\<close> on a string or \<open>null\<close> is \<open>d\<close> when \<open>x\<close> is \<open>null\<close> or
  the empty string.
\<close>

type_synonym search_params = "(string \<times> string) list"

definition searchParams_get :: "search_params \<Rightarrow> string \<Rightarrow> string option" where
  "searchParams_get searchParams k = map_of searchParams k"

definition or_default :: "string option \<Rightarrow> string \<Rightarrow> string" where
  "or_default x d = (case x of None \<Rightarrow> d | Some s \<Rightarrow> if s = [] then d else s)"

text \<open>
  The arguments the handlers build for the Prisma client. \<open>where\<close> is an object with the
  optional keys \<open>OR\<close>, \<open>company_location\<close> and \<open>domain\<close>; a string filter is
  \<open>{ contains: s, mode: 'insensitive' }\<close>; \<open>orderBy\<close> is an object, given by its own
  properties in order.
\<close>

record string_filter =
  contains :: string
  mode :: string

record where_input =
  where_OR :: "(string \<times> string_filter) list option"
  where_company_location :: "string_filter option"
  where_domain :: "string option"

record 'n find_args =
  args_where :: where_input
  args_orderBy :: "(string \<times> string) list"
  args_skip :: 'n
  args_take :: 'n
  args_select :: "string list option"

definition build_where :: "string \<Rightarrow> string \<Rightarrow> string \<Rightarrow> where_input" where
  "build_where search location domain =
     \<lparr>where_OR =
        (if search \<noteq> [] then
           Some [(''job_title'', \<lparr>contains = search, mode = ''insensitive''\<rparr>),
                 (''company_name'', \<lparr>contains = search, mode = ''insensitive''\<rparr>)]
         else None),
      where_company_location =
        (if location \<noteq> [] then Some \<lparr>contains = location, mode = ''insensitive''\<rparr> else None),
      where_domain = (if domain \<noteq> [] then Some domain else None)\<rparr>"

text \<open>
  \<open>const orderBy = {}; orderBy[sortBy] = sortOrder\<close>. The assignment creates the own
  property \<open>sortBy\<close>, except for the key \<open>__proto__\<close>: that one is the accessor of
  \<open>Object.prototype\<close>, whose setter ignores a string, and the object stays empty.
\<close>

definition build_orderBy :: "string \<Rightarrow> string \<Rightarrow> (string \<times> string) list" where
  "build_orderBy sortBy sortOrder = (if sortBy = ''__proto__'' then [] else [(sortBy, sortOrder)])"

text \<open>
  The Prisma client is an external collaborator. Its two methods that the handlers call
  are parameters of the model: each takes the store and returns a result (rows or a
  count, or the error it rejects with) and the store after the call. Nothing is assumed
  of them here; that they are reads is a hypothesis where a property needs it.
\<close>

datatype exn = Exn string

record ('row, 'n, 'db) prisma_indeedJob =
  findMany :: "'n find_args \<Rightarrow> 'db \<Rightarrow> (exn + 'row list) \<times> 'db"
  count :: "where_input \<Rightarrow> 'db \<Rightarrow> (exn + 'n) \<times> 'db"

text \<open>
  \<open>await Promise.all([findMany(...), count(...)])\<close>: both calls are issued, \<open>findMany\<close>
  first; the await throws when one of them rejects.
\<close>

definition fetch_jobs ::
  "('row, 'n, 'db) prisma_indeedJob \<Rightarrow> 'n find_args \<Rightarrow> 'db \<Rightarrow> (exn + 'row list \<times> 'n) \<times> 'db" where
  "fetch_jobs prisma args db =
     (let (jobs, db) = findMany prisma args db;
          (totalCount, db) = count prisma (args_where args) db
      in (case jobs of
            Inl e \<Rightarrow> Inl e
          | Inr jobs \<Rightarrow> (case totalCount of Inl e \<Rightarrow> Inl e | Inr totalCount \<Rightarrow> Inr (jobs, totalCount)),
          db))"

record 'n pagination_meta =
  meta_page :: 'n
  meta_limit :: 'n
  meta_totalCount :: 'n
  meta_totalPages :: 'n
  meta_hasMore :: bool

datatype ('row, 'n) json_body =
  JobsBody "'row list" "'n pagination_meta"
| ErrorBody string

record ('row, 'n) response =
  status :: nat
  body :: "('row, 'n) json_body"

text \<open>
  \<open>NextResponse.json(body, { status })\<close> serialises the body and throws when a row
  cannot be serialised; the error body is a string and always can. The response is
  recorded by the object it was made from.
\<close>

definition NextResponse_json ::
  "('n, 'row) js_platform \<Rightarrow> ('row, 'n) json_body \<Rightarrow> nat \<Rightarrow> exn + ('row, 'n) response" where
  "NextResponse_json js b st =
     (case b of
        JobsBody jobs meta \<Rightarrow>
          if list_all (js_JSON_serializable js) jobs then Inr \<lparr>status = st, body = b\<rparr>
          else Inl (Exn ''TypeError'')
      | ErrorBody message \<Rightarrow> Inr \<lparr>status = st, body = b\<rparr>)"

definition selected_fields :: "string list" where
  "selected_fields = [''id'', ''job_title'', ''company_name'', ''company_location'',
                      ''job_url'', ''search_position'', ''domain'', ''scraped_at'']"

text \<open>
  The constants \<open>page\<close> and \<open>limit\<close> of the route handler, and the arguments of its
  \<open>findMany\<close> call, from the query string.
\<close>

definition GET_page :: "('n, 'row) js_platform \<Rightarrow> search_params \<Rightarrow> 'n" where
  "GET_page js searchParams =
     js_parseInt js (or_default (searchParams_get searchParams ''page'') ''1'')"

definition GET_limit :: "('n, 'row) js_platform \<Rightarrow> search_params \<Rightarrow> 'n" where
  "GET_limit js searchParams =
     js_parseInt js (or_default (searchParams_get searchParams ''limit'') ''20'')"

definition GET_args :: "('n, 'row) js_platform \<Rightarrow> search_params \<Rightarrow> 'n find_args" where
  "GET_args js searchParams =
     (let page = GET_page js searchParams;
          limit = GET_limit js searchParams;
          skip = js_times js (js_minus js page (js_number js 1)) limit;
          search = or_default (searchParams_get searchParams ''search'') [];
          location = or_default (searchParams_get searchParams ''location'') [];
          domain = or_default (searchParams_get searchParams ''domain'') [];
          sortBy = or_default (searchParams_get searchParams ''sortBy'') ''scraped_at'';
          sortOrder = or_default (searchParams_get searchParams ''sortOrder'') ''desc''
      in \<lparr>args_where = build_where search location domain,
          args_orderBy = build_orderBy sortBy sortOrder,
          args_skip = skip,
          args_take = limit,
          args_select = Some selected_fields\<rparr>)"

text \<open>
  The body of the \<open>try\<close> block of \<open>GET\<close>: \<open>Inl\<close> is an exception thrown inside it, by
  the client or by \<open>NextResponse.json\<close>.
\<close>

definition GET_try ::
  "('n, 'row) js_platform \<Rightarrow> ('row, 'n, 'db) prisma_indeedJob \<Rightarrow> search_params \<Rightarrow> 'db \<Rightarrow>
   (exn + ('row, 'n) response) \<times> 'db" where
  "GET_try js prisma searchParams db =
     (let page = GET_page js searchParams;
          limit = GET_limit js searchParams;
          (fetched, db) = fetch_jobs prisma (GET_args js searchParams) db
      in (case fetched of
            Inl e \<Rightarrow> Inl e
          | Inr (jobs, totalCount) \<Rightarrow>
              let totalPages = js_Math_ceil js (js_divide js totalCount limit);
                  hasMore = js_less js page totalPages
              in NextResponse_json js
                   (JobsBody jobs \<lparr>meta_page = page, meta_limit = limit,
                                   meta_totalCount = totalCount,
                                   meta_totalPages = totalPages,
                                   meta_hasMore = hasMore\<rparr>) 200,
          db))"

text \<open>
  \<open>GET\<close>, an async function: \<open>Inl\<close> is a rejection, an exception that propagates to the
  caller. The \<open>catch\<close> block answers every exception of the \<open>try\<close> block with
  \<open>NextResponse.json({ error: 'Failed to fetch jobs' }, { status: 500 })\<close> (the
  \<open>console.error\<close> line is not modelled).
\<close>

definition GET ::
  "('n, 'row) js_platform \<Rightarrow> ('row, 'n, 'db) prisma_indeedJob \<Rightarrow> search_params \<Rightarrow> 'db \<Rightarrow>
   (exn + ('row, 'n) response) \<times> 'db" where
  "GET js prisma searchParams db =
     (case GET_try js prisma searchParams db of
        (Inl error, db) \<Rightarrow> (NextResponse_json js (ErrorBody ''Failed to fetch jobs'') 500, db)
      | (Inr response, db) \<Rightarrow> (Inr response, db))"

text \<open>
  The jobs page does the same queries with \<open>limit = 20\<close> and no \<open>select\<close>, outside any
  \<open>try\<close>: an exception propagates to the framework. The view records what the page is
  rendered from: the search bar's initial values, the result summary, and either the
  "No jobs found" message (\<open>None\<close>) or the rows with the properties handed to
  \<open>Pagination\<close>. The markup is not modelled.
\<close>

record ('row, 'n) jobs_page_view =
  view_searchBar :: "string \<times> string \<times> string"
  view_totalCount :: 'n
  view_sortBy :: string
  view_listing :: "('row list \<times> ('n \<times> 'n \<times> 'n)) option"

definition JobsPage_args :: "('n, 'row) js_platform \<Rightarrow> search_params \<Rightarrow> 'n find_args" where
  "JobsPage_args js params =
     (let page = js_parseInt js (or_default (map_of params ''page'') ''1'');
          limit = js_number js 20;
          skip = js_times js (js_minus js page (js_number js 1)) limit;
          search = or_default (map_of params ''search'') [];
          location = or_default (map_of params ''location'') [];
          domain = or_default (map_of params ''domain'') [];
          sortBy = or_default (map_of params ''sortBy'') ''scraped_at'';
          sortOrder = or_default (map_of params ''sortOrder'') ''desc''
      in \<lparr>args_where = build_where search location domain,
          args_orderBy = build_orderBy sortBy sortOrder,
          args_skip = skip,
          args_take = limit,
          args_select = None\<rparr>)"

definition JobsPage ::
  "('n, 'row) js_platform \<Rightarrow> ('row, 'n, 'db) prisma_indeedJob \<Rightarrow> search_params \<Rightarrow> 'db \<Rightarrow>
   (exn + ('row, 'n) jobs_page_view) \<times> 'db" where
  "JobsPage js prisma params db =
     (let page = js_parseInt js (or_default (map_of params ''page'') ''1'');
          limit = js_number js 20;
          search = or_default (map_of params ''search'') [];
          location = or_default (map_of params ''location'') [];
          domain = or_default (map_of params ''domain'') [];
          sortBy = or_default (map_of params ''sortBy'') ''scraped_at'';
          (fetched, db) = fetch_jobs prisma (JobsPage_args js params) db
      in (case fetched of
            Inl e \<Rightarrow> Inl e
          | Inr (jobs, totalCount) \<Rightarrow>
              let totalPages = js_Math_ceil js (js_divide js totalCount limit)
              in Inr \<lparr>view_searchBar = (search, location, domain),
                      view_totalCount = totalCount,
                      view_sortBy = sortBy,
                      view_listing =
                        (if length jobs > 0 then Some (jobs, (page, totalPages, totalCount))
                         else None)\<rparr>,
          db))"

section \<open>An idealised platform and an in-memory client, for the examples\<close>

text \<open>
  The examples run the handlers on concrete requests, which takes some platform and
  some client. The two defined here are stand-ins: no property of the handlers rests on
  them, they only show that the hypotheses of the properties can be met.

  The platform computes exactly. A number is \<open>NaN\<close>, an infinity or a rational; there
  is one zero and nothing is rounded, which agrees with IEEE arithmetic on safe
  integers and not beyond. Its \<open>parseInt\<close> skips ASCII white space, reads a sign and
  decimal or (after \<open>0x\<close>) hexadecimal ASCII digits. Every row can be serialised.
\<close>

datatype exact_number = NaN | PosInf | NegInf | Fin rat

fun exact_minus :: "exact_number \<Rightarrow> exact_number \<Rightarrow> exact_number" where
  "exact_minus NaN y = NaN"
| "exact_minus x NaN = NaN"
| "exact_minus PosInf PosInf = NaN"
| "exact_minus NegInf NegInf = NaN"
| "exact_minus PosInf y = PosInf"
| "exact_minus NegInf y = NegInf"
| "exact_minus (Fin a) PosInf = NegInf"
| "exact_minus (Fin a) NegInf = PosInf"
| "exact_minus (Fin a) (Fin b) = Fin (a - b)"

definition inf_of_sign :: "bool \<Rightarrow> exact_number" where
  "inf_of_sign negative = (if negative then NegInf else PosInf)"

fun exact_times :: "exact_number \<Rightarrow> exact_number \<Rightarrow> exact_number" where
  "exact_times NaN y = NaN"
| "exact_times x NaN = NaN"
| "exact_times (Fin a) (Fin b) = Fin (a * b)"
| "exact_times (Fin a) y = (if a = 0 then NaN else inf_of_sign ((a < 0) \<noteq> (y = NegInf)))"
| "exact_times x (Fin b) = (if b = 0 then NaN else inf_of_sign ((x = NegInf) \<noteq> (b < 0)))"
| "exact_times x y = inf_of_sign ((x = NegInf) \<noteq> (y = NegInf))"

fun exact_divide :: "exact_number \<Rightarrow> exact_number \<Rightarrow> exact_number" where
  "exact_divide NaN y = NaN"
| "exact_divide x NaN = NaN"
| "exact_divide (Fin a) (Fin b) =
     (if b = 0 then (if a = 0 then NaN else inf_of_sign (a < 0)) else Fin (a / b))"
| "exact_divide (Fin a) y = Fin 0"
| "exact_divide x (Fin b) = inf_of_sign ((x = NegInf) \<noteq> (b < 0))"
| "exact_divide x y = NaN"

fun exact_less :: "exact_number \<Rightarrow> exact_number \<Rightarrow> bool" where
  "exact_less NaN y = False"
| "exact_less x NaN = False"
| "exact_less (Fin a) (Fin b) = (a < b)"
| "exact_less x PosInf = (x \<noteq> PosInf)"
| "exact_less NegInf y = (y \<noteq> NegInf)"
| "exact_less x y = False"

fun exact_ceil :: "exact_number \<Rightarrow> exact_number" where
  "exact_ceil (Fin a) = Fin (of_int \<lceil>a\<rceil>)"
| "exact_ceil x = x"

definition isAsciiWhiteSpace :: "char \<Rightarrow> bool" where
  "isAsciiWhiteSpace c \<longleftrightarrow> (of_char c :: nat) \<in> {9, 10, 11, 12, 13, 32}"

definition digitValue :: "nat \<Rightarrow> char \<Rightarrow> nat option" where
  "digitValue radix c =
     (let n = (of_char c :: nat);
          v = (if 48 \<le> n \<and> n \<le> 57 then Some (n - 48)
               else if 97 \<le> n \<and> n \<le> 122 then Some (n - 87)
               else if 65 \<le> n \<and> n \<le> 90 then Some (n - 55)
               else None)
      in case v of None \<Rightarrow> None | Some d \<Rightarrow> if d < radix then Some d else None)"

text \<open>The value of the longest prefix of digits; \<open>None\<close> while no digit has been read.\<close>

fun parseDigits :: "nat \<Rightarrow> nat option \<Rightarrow> string \<Rightarrow> nat option" where
  "parseDigits radix acc [] = acc"
| "parseDigits radix acc (c # cs) =
     (case digitValue radix c of
        None \<Rightarrow> acc
      | Some d \<Rightarrow> parseDigits radix (Some ((case acc of None \<Rightarrow> 0 | Some a \<Rightarrow> a) * radix + d)) cs)"

definition ascii_parseInt :: "string \<Rightarrow> exact_number" where
  "ascii_parseInt string =
     (let S = dropWhile isAsciiWhiteSpace string;
          negative = (S \<noteq> [] \<and> hd S = CHR ''-'');
          S = (if S \<noteq> [] \<and> (hd S = CHR ''+'' \<or> hd S = CHR ''-'') then tl S else S);
          hex = (take 2 S = ''0x'' \<or> take 2 S = ''0X'');
          R = (if hex then 16 else 10);
          S = (if hex then drop 2 S else S)
      in case parseDigits R None S of
           None \<Rightarrow> NaN
         | Some n \<Rightarrow> Fin (if negative then - of_nat n else of_nat n))"

text \<open>
  The client works over a list of rows. A row is an object: a list of column names with
  their values. The client filters by the \<open>where\<close> object, skips and takes, and projects
  the selected columns; it rejects a \<open>skip\<close> or \<open>take\<close> that is not a non-negative
  integer. It does not sort.
\<close>

type_synonym row = "(string \<times> string) list"

definition exact_platform :: "(exact_number, row) js_platform" where
  "exact_platform =
     \<lparr>js_parseInt = ascii_parseInt,
      js_number = (\<lambda>a. Fin (of_int a)),
      js_minus = exact_minus,
      js_times = exact_times,
      js_divide = exact_divide,
      js_Math_ceil = exact_ceil,
      js_less = exact_less,
      js_JSON_serializable = (\<lambda>r. True)\<rparr>"

definition toLower :: "char \<Rightarrow> char" where
  "toLower c = (let n = (of_char c :: nat) in if 65 \<le> n \<and> n \<le> 90 then char_of (n + 32) else c)"

fun occurs_in :: "string \<Rightarrow> string \<Rightarrow> bool" where
  "occurs_in needle [] = (needle = [])"
| "occurs_in needle (c # cs) = (take (length needle) (c # cs) = needle \<or> occurs_in needle cs)"

definition column_contains :: "row \<Rightarrow> string \<Rightarrow> string_filter \<Rightarrow> bool" where
  "column_contains r column f =
     (case map_of r column of
        None \<Rightarrow> False
      | Some v \<Rightarrow> occurs_in (map toLower (contains f)) (map toLower v))"

definition row_matches :: "where_input \<Rightarrow> row \<Rightarrow> bool" where
  "row_matches w r =
     ((case where_OR w of
         None \<Rightarrow> True
       | Some alternatives \<Rightarrow> list_ex (\<lambda>(column, f). column_contains r column f) alternatives) \<and>
      (case where_company_location w of
         None \<Rightarrow> True
       | Some f \<Rightarrow> column_contains r ''company_location'' f) \<and>
      (case where_domain w of
         None \<Rightarrow> True
       | Some d \<Rightarrow> map_of r ''domain'' = Some d))"

definition row_count :: "exact_number \<Rightarrow> nat option" where
  "row_count x =
     (case x of
        Fin q \<Rightarrow> if 0 \<le> q \<and> of_int \<lfloor>q\<rfloor> = q then Some (nat \<lfloor>q\<rfloor>) else None
      | _ \<Rightarrow> None)"

definition project :: "string list option \<Rightarrow> row \<Rightarrow> row" where
  "project sel r = (case sel of None \<Rightarrow> r | Some columns \<Rightarrow> filter (\<lambda>(k, v). k \<in> set columns) r)"

definition memory_findMany ::
  "exact_number find_args \<Rightarrow> row list \<Rightarrow> (exn + row list) \<times> row list" where
  "memory_findMany args db =
     (case (row_count (args_skip args), row_count (args_take args)) of
        (Some s, Some t) \<Rightarrow>
          (Inr (map (project (args_select args))
                  (take t (drop s (filter (row_matches (args_where args)) db)))), db)
      | _ \<Rightarrow> (Inl (Exn ''Invalid value for skip or take''), db))"

definition memory_count :: "where_input \<Rightarrow> row list \<Rightarrow> (exn + exact_number) \<times> row list" where
  "memory_count w db = (Inr (Fin (of_nat (length (filter (row_matches w) db)))), db)"

definition memory_client :: "(row, exact_number, row list) prisma_indeedJob" where
  "memory_client = \<lparr>findMany = memory_findMany, count = memory_count\<rparr>"

text \<open>Three rows of the table \<open>indeed_jobs\<close>, for the examples.\<close>

definition example_jobs :: "row list" where
  "example_jobs =
     [[(''id'', ''1''), (''job_title'', ''Data Engineer''), (''company_name'', ''Acme''),
       (''company_location'', ''London''), (''job_url'', ''https://x/1''), (''domain'', ''uk'')],
      [(''id'', ''2''), (''job_title'', ''Software Engineer''), (''company_name'', ''Initech''),
       (''company_location'', ''Dubai''), (''job_url'', ''https://x/2''), (''domain'', ''ae'')],
      [(''id'', ''3''), (''job_title'', ''Site Reliability Engineer''), (''company_name'', ''Acme''),
       (''company_location'', ''Singapore''), (''job_url'', ''https://x/3''), (''domain'', ''sg'')]]"

section \<open>The pipeline contracts: validation, deduplication and load\<close>

text \<open>
  The Python files of the pipeline (\<open>schema.py\<close>, \<open>normalize.py\<close>, \<open>database.py\<close>) are
  named by the repository's documentation but are not among its source files here. The
  definitions of this section follow sections 3, 4.1, 4.4 and 4.5 of the specification
  instead, and each one says so.
\<close>

subsection \<open>The canonical schema and its validator (section 4.1)\<close>

text \<open>
  Modelled from the spec: the values of a candidate mapping (\<open>schema.py\<close> is missing).
  A raw field holds a string, a timestamp, a number, or nothing.
\<close>

datatype field_value = VString string | VTimestamp int | VNumber int | VNull

text \<open>
  Modelled from the spec: the candidate mapping that \<open>validate\<close> receives, field name to
  value (\<open>schema.py\<close> is missing). The first entry of a name is the one that counts.
\<close>

type_synonym candidate = "(string \<times> field_value) list"

text \<open>
  Modelled from the spec: the CanonicalJobRecord of section 3 (\<open>schema.py\<close> is missing),
  with its five required fields, its two optional fields and the side mapping of
  source-specific extras.
\<close>

record canonical_job_record =
  job_title :: string
  company_name :: string
  job_url :: string
  source_domain :: string
  scraped_at :: int
  company_location :: "string option"
  search_position :: "string option"
  extras :: "(string \<times> field_value) list"

text \<open>
  Modelled from the spec: what is wrong with one field of a candidate (\<open>schema.py\<close> is
  missing). The spec distinguishes a missing field from a malformed one.
\<close>

datatype field_problem = Missing | Malformed

text \<open>
  Modelled from the spec: the ValidationFailure of section 4.1 (\<open>schema.py\<close> is
  missing): the fields that failed, each with its problem.
\<close>

type_synonym validation_failure = "(string \<times> field_problem) list"

text \<open>
  Modelled from the spec: the fixed set of required fields of section 3 (\<open>schema.py\<close> is
  missing).
\<close>

definition required_fields :: "string list" where
  "required_fields = [''job_title'', ''company_name'', ''job_url'', ''source_domain'', ''scraped_at'']"

text \<open>
  Modelled from the spec: "absolute URL" (\<open>schema.py\<close> is missing). The spec does not
  define the term; it is read as a non-empty scheme, \<open>://\<close>, and a non-empty rest.
\<close>

definition is_absolute_url :: "string \<Rightarrow> bool" where
  "is_absolute_url s =
     (let scheme = takeWhile (\<lambda>c. c \<noteq> CHR '':'') s;
          rest = drop (length scheme) s
      in scheme \<noteq> [] \<and> take 3 rest = ''://'' \<and> drop 3 rest \<noteq> [])"

text \<open>
  Modelled from the spec: the check of a required non-empty string field (\<open>schema.py\<close>
  is missing). An absent or null field is missing; any other value that is not a
  non-empty string is malformed.
\<close>

definition check_text :: "candidate \<Rightarrow> string \<Rightarrow> field_problem + string" where
  "check_text c k =
     (case map_of c k of
        None \<Rightarrow> Inl Missing
      | Some VNull \<Rightarrow> Inl Missing
      | Some (VString s) \<Rightarrow> if s = [] then Inl Malformed else Inr s
      | Some _ \<Rightarrow> Inl Malformed)"

text \<open>
  Modelled from the spec: the check of the required field \<open>job_url\<close>, a string that is an
  absolute URL (\<open>schema.py\<close> is missing).
\<close>

definition check_url :: "candidate \<Rightarrow> string \<Rightarrow> field_problem + string" where
  "check_url c k =
     (case check_text c k of
        Inl p \<Rightarrow> Inl p
      | Inr s \<Rightarrow> if is_absolute_url s then Inr s else Inl Malformed)"

text \<open>
  Modelled from the spec: the check of the required field \<open>scraped_at\<close>, a timestamp
  (\<open>schema.py\<close> is missing).
\<close>

definition check_timestamp :: "candidate \<Rightarrow> string \<Rightarrow> field_problem + int" where
  "check_timestamp c k =
     (case map_of c k of
        None \<Rightarrow> Inl Missing
      | Some VNull \<Rightarrow> Inl Missing
      | Some (VTimestamp t) \<Rightarrow> Inr t
      | Some _ \<Rightarrow> Inl Malformed)"

text \<open>
  Modelled from the spec: an optional string field (\<open>schema.py\<close> is missing); it is kept
  when the candidate holds a string for it.
\<close>

definition optional_text :: "candidate \<Rightarrow> string \<Rightarrow> string option" where
  "optional_text c k = (case map_of c k of Some (VString s) \<Rightarrow> Some s | _ \<Rightarrow> None)"

text \<open>
  Modelled from the spec: the entry a failed check contributes to the
  ValidationFailure (\<open>schema.py\<close> is missing).
\<close>

definition problem_of :: "string \<Rightarrow> field_problem + 'a \<Rightarrow> validation_failure" where
  "problem_of k outcome = (case outcome of Inl p \<Rightarrow> [(k, p)] | Inr v \<Rightarrow> [])"

text \<open>
  Modelled from the spec: \<open>validate\<close> of section 4.1 (\<open>schema.py\<close> is missing). Every
  required field is checked on its own; the result is the record when all five checks
  pass, and otherwise the failure that lists every field that did not. The fields of the
  candidate that the schema does not name are preserved as extras.
\<close>

definition validate :: "candidate \<Rightarrow> validation_failure + canonical_job_record" where
  "validate c =
     (let title = check_text c ''job_title'';
          company = check_text c ''company_name'';
          url = check_url c ''job_url'';
          domain = check_text c ''source_domain'';
          scraped = check_timestamp c ''scraped_at''
      in case (title, company, url, domain, scraped) of
           (Inr t, Inr n, Inr u, Inr d, Inr s) \<Rightarrow>
             Inr \<lparr>job_title = t, company_name = n, job_url = u, source_domain = d,
                  scraped_at = s,
                  company_location = optional_text c ''company_location'',
                  search_position = optional_text c ''search_position'',
                  extras = filter (\<lambda>(k, v). k \<notin> set required_fields \<and>
                                     k \<noteq> ''company_location'' \<and> k \<noteq> ''search_position'') c\<rparr>
         | _ \<Rightarrow>
             Inl (problem_of ''job_title'' title @ problem_of ''company_name'' company @
                  problem_of ''job_url'' url @ problem_of ''source_domain'' domain @
                  problem_of ''scraped_at'' scraped))"

subsection \<open>Fingerprints and deduplication within a batch (section 4.4)\<close>

text \<open>
  Modelled from the spec: the JobFingerprint of section 3 (\<open>normalize.py\<close> is missing).
  The spec says that it is derived from the natural key \<open>(job_url, source_domain)\<close> and
  not how; it is taken to be the natural key itself.
\<close>

definition fingerprint :: "canonical_job_record \<Rightarrow> string \<times> string" where
  "fingerprint r = (job_url r, source_domain r)"

text \<open>
  Modelled from the spec: one step of the collapse of section 4.4, step 4
  (\<open>normalize.py\<close> is missing). A record whose fingerprint is new is kept, in first-seen
  order. A record whose fingerprint is already kept replaces the kept one only when its
  \<open>scraped_at\<close> is later, so that among equally late records the first seen stays; the
  loser is recorded as an intra-batch duplicate.
\<close>

definition collapse_step ::
  "canonical_job_record list \<times> canonical_job_record list \<Rightarrow> canonical_job_record \<Rightarrow>
   canonical_job_record list \<times> canonical_job_record list" where
  "collapse_step acc r =
     (let (kept, duplicates) = acc in
      case find (\<lambda>k. fingerprint k = fingerprint r) kept of
        None \<Rightarrow> (kept @ [r], duplicates)
      | Some k \<Rightarrow>
          if scraped_at k < scraped_at r
          then (map (\<lambda>x. if fingerprint x = fingerprint r then r else x) kept, duplicates @ [k])
          else (kept, duplicates @ [r]))"

text \<open>
  Modelled from the spec: the collapse of a batch of validated records, section 4.4,
  step 4 (\<open>normalize.py\<close> is missing): the records are taken in batch order.
\<close>

definition dedupe ::
  "canonical_job_record list \<Rightarrow> canonical_job_record list \<times> canonical_job_record list" where
  "dedupe rs = foldl collapse_step ([], []) rs"

text \<open>
  Modelled from the spec: the RawItemPayload of section 3 (the extractor,
  \<open>indeed_scraper.py\<close>, is missing): the fields as extracted and the extraction metadata.
\<close>

record raw_item_payload =
  raw_fields :: candidate
  source_id :: string
  query_context :: "string \<times> string"
  page_number :: nat
  position_on_page :: nat
  extracted_at :: int

text \<open>
  Modelled from the spec: the DedupReport of section 4.4 (\<open>normalize.py\<close> is missing):
  the validation failures and the records dropped as intra-batch duplicates.
\<close>

record dedup_report =
  validation_failures :: "validation_failure list"
  intra_batch_duplicates :: "canonical_job_record list"

text \<open>
  Modelled from the spec: \<open>normalize_and_dedupe\<close> of section 4.4 (\<open>normalize.py\<close> is
  missing), on the payloads of a batch: (1) the source-specific field mapping, a
  parameter since the spec does not give it, (2) validation, (3) and (4) the collapse by
  fingerprint.
\<close>

definition normalize_and_dedupe ::
  "(raw_item_payload \<Rightarrow> candidate) \<Rightarrow> raw_item_payload list \<Rightarrow>
   canonical_job_record list \<times> dedup_report" where
  "normalize_and_dedupe field_mapping payloads =
     (let outcomes = map (\<lambda>p. validate (field_mapping p)) payloads;
          validated = [r. Inr r \<leftarrow> outcomes];
          failures = [f. Inl f \<leftarrow> outcomes];
          (records, duplicates) = dedupe validated
      in (records, \<lparr>validation_failures = failures, intra_batch_duplicates = duplicates\<rparr>))"

subsection \<open>The incremental loader (section 4.5)\<close>

text \<open>
  Modelled from the spec: a row of the stored table (\<open>database.py\<close> is missing): the
  fields of the record and the housekeeping columns \<open>inserted_at\<close> and \<open>updated_at\<close>.
\<close>

record stored_row =
  stored :: canonical_job_record
  inserted_at :: int
  updated_at :: int

text \<open>
  Modelled from the spec: the stored table (\<open>database.py\<close> is missing), a list of rows.
\<close>

type_synonym store = "stored_row list"

text \<open>
  Modelled from the spec: a consistent store (\<open>database.py\<close> is missing): the natural
  key is unique, the constraint that section 4.5 puts at the store boundary.
\<close>

definition consistent :: "store \<Rightarrow> bool" where
  "consistent s = distinct (map (\<lambda>row. fingerprint (stored row)) s)"

text \<open>
  Modelled from the spec: the read-by-key primitive of section 6 (\<open>database.py\<close> is
  missing).
\<close>

definition lookup :: "store \<Rightarrow> string \<times> string \<Rightarrow> stored_row option" where
  "lookup s key = find (\<lambda>row. fingerprint (stored row) = key) s"

text \<open>
  Modelled from the spec: the comparison set of section 4.5 (\<open>database.py\<close> is
  missing): every field but the volatile \<open>scraped_at\<close>.
\<close>

definition comparable ::
  "canonical_job_record \<Rightarrow>
   string \<times> string \<times> string \<times> string \<times> string option \<times> string option \<times> (string \<times> field_value) list" where
  "comparable r =
     (job_title r, company_name r, job_url r, source_domain r,
      company_location r, search_position r, extras r)"

text \<open>
  Modelled from the spec: the LoadReport of section 4.5 (\<open>database.py\<close> is missing).
\<close>

record load_report =
  inserted :: nat
  updated :: nat
  skipped_unchanged :: nat

text \<open>
  Modelled from the spec: the row an insert writes (\<open>database.py\<close> is missing): the
  record, with both housekeeping columns set to the time of the write.
\<close>

definition new_row :: "int \<Rightarrow> canonical_job_record \<Rightarrow> stored_row" where
  "new_row now r = \<lparr>stored = r, inserted_at = now, updated_at = now\<rparr>"

text \<open>
  Modelled from the spec: what the loader does with one record, section 4.5
  (\<open>database.py\<close> is missing). Absent: insert, counted inserted. Present with identical
  comparable fields: no write, counted skipped-unchanged. Present with a differing
  comparable field: update in place, counted updated. \<open>now\<close> is the time of the write.
\<close>

definition load_step :: "int \<Rightarrow> load_report \<times> store \<Rightarrow> canonical_job_record \<Rightarrow> load_report \<times> store" where
  "load_step now acc r =
     (let (report, s) = acc in
      case lookup s (fingerprint r) of
        None \<Rightarrow>
          (report\<lparr>inserted := inserted report + 1\<rparr>,
           s @ [new_row now r])
      | Some row \<Rightarrow>
          if comparable (stored row) = comparable r
          then (report\<lparr>skipped_unchanged := skipped_unchanged report + 1\<rparr>, s)
          else (report\<lparr>updated := updated report + 1\<rparr>,
                map (\<lambda>x. if fingerprint (stored x) = fingerprint r
                          then x\<lparr>stored := r, updated_at := now\<rparr> else x) s))"

text \<open>
  Modelled from the spec: \<open>load\<close> of section 4.5 (\<open>database.py\<close> is missing): the
  records are taken in order; the result is the report and the store after the load.
\<close>

definition load :: "int \<Rightarrow> canonical_job_record list \<Rightarrow> store \<Rightarrow> load_report \<times> store" where
  "load now records s =
     foldl (load_step now) (\<lparr>inserted = 0, updated = 0, skipped_unchanged = 0\<rparr>, s) records"

subsection \<open>The scenario of section 8\<close>

text \<open>
  Modelled from the spec: an item of the batch of the scenario of section 8, where items
  1 and 2 share \<open>job_url = "https://x/1"\<close>, item 2 has the later \<open>scraped_at\<close>, and
  item 3 has \<open>job_url = "https://x/2"\<close>. The fields are already in the canonical
  shape, so that the field mapping of the scenario is \<open>raw_fields\<close>.
\<close>

definition scenario_item :: "string \<Rightarrow> string \<Rightarrow> int \<Rightarrow> nat \<Rightarrow> raw_item_payload" where
  "scenario_item url title t pos =
     \<lparr>raw_fields = [(''job_title'', VString title), (''company_name'', VString ''Acme''),
                (''job_url'', VString url), (''source_domain'', VString ''uk''),
                (''scraped_at'', VTimestamp t)],
      source_id = ''indeed'', query_context = (''uk'', ''data engineer''),
      page_number = 1, position_on_page = pos, extracted_at = t\<rparr>"

text \<open>
  Modelled from the spec: the three items of the scenario, in batch order.
\<close>

definition scenario_batch :: "raw_item_payload list" where
  "scenario_batch =
     [scenario_item ''https://x/1'' ''Data Engineer'' 100 1,
      scenario_item ''https://x/1'' ''Senior Data Engineer'' 200 2,
      scenario_item ''https://x/2'' ''Software Engineer'' 100 3]"

text \<open>
  Modelled from the spec: a record with a given URL, title and time, for the examples.
\<close>

definition example_record :: "string \<Rightarrow> string \<Rightarrow> int \<Rightarrow> canonical_job_record" where
  "example_record url title t =
     \<lparr>job_title = title, company_name = ''Acme'', job_url = url, source_domain = ''uk'',
      scraped_at = t, company_location = None, search_position = None, extras = []\<rparr>"

subsection \<open>The rule of section 4.4, step 4, stated on its own\<close>

text \<open>
  Modelled from the spec: the record to keep among those of a batch that share its
  fingerprint, in the words of section 4.4, step 4 (\<open>normalize.py\<close> is missing): no
  record with the same fingerprint has a later \<open>scraped_at\<close>, and it is the first of the
  batch with its fingerprint and its \<open>scraped_at\<close>.
\<close>

definition latest_first_seen :: "canonical_job_record list \<Rightarrow> canonical_job_record \<Rightarrow> bool" where
  "latest_first_seen rs k \<longleftrightarrow>
     (\<forall>r \<in> set rs. fingerprint r = fingerprint k \<longrightarrow> scraped_at r \<le> scraped_at k) \<and>
     find (\<lambda>r. fingerprint r = fingerprint k \<and> scraped_at r = scraped_at k) rs = Some k"

text \<open>
  Modelled from the spec: the first-seen order of a batch (\<open>normalize.py\<close> is missing):
  each element once, at the place of its first occurrence.
\<close>

definition first_seen_order :: "'a list \<Rightarrow> 'a list" where
  "first_seen_order xs = rev (remdups (rev xs))"

text \<open>
  Modelled from the spec: the records of a batch that pass validation, in batch order
  (\<open>normalize.py\<close> is missing).
\<close>

definition validated_records ::
  "(raw_item_payload \<Rightarrow> candidate) \<Rightarrow> raw_item_payload list \<Rightarrow> canonical_job_record list" where
  "validated_records field_mapping payloads =
     [r. Inr r \<leftarrow> map (\<lambda>p. validate (field_mapping p)) payloads]"

subsection \<open>The three cases of section 4.5, stated on their own\<close>

text \<open>
  Modelled from the spec: the three cases of section 4.5 for one record against a store
  (\<open>database.py\<close> is missing): the fingerprint is absent, or it is present with
  identical comparable fields, or it is present with a differing comparable field.
\<close>

datatype load_case = Absent | Unchanged | Changed

text \<open>
  Modelled from the spec: the case of section 4.5 that a record falls under
  (\<open>database.py\<close> is missing).
\<close>

definition load_case_of :: "store \<Rightarrow> canonical_job_record \<Rightarrow> load_case" where
  "load_case_of s r =
     (case lookup s (fingerprint r) of
        None \<Rightarrow> Absent
      | Some row \<Rightarrow> if comparable (stored row) = comparable r then Unchanged else Changed)"

text \<open>
  Modelled from the spec: the row that the store is to hold for a record once it has
  been loaded at time \<open>now\<close>, by the three cases of section 4.5 (\<open>database.py\<close> is
  missing): the new row, the old row as it was, or the old row with the record's content
  and the time of the update.
\<close>

definition loaded_row :: "int \<Rightarrow> store \<Rightarrow> canonical_job_record \<Rightarrow> stored_row" where
  "loaded_row now s r =
     (case lookup s (fingerprint r) of
        None \<Rightarrow> new_row now r
      | Some row \<Rightarrow>
          if comparable (stored row) = comparable r then row
          else row\<lparr>stored := r, updated_at := now\<rparr>)"

section \<open>Properties of the Pagination component\<close>

lemma push_pages_upto: "push_pages i b pages = pages @ map Num [i..b]"
proof (induction i b pages rule: push_pages.induct)
  case (1 i b pages)
  show ?case
  proof (cases "i \<le> b")
    case True
    then have "push_pages i b pages = push_pages (i + 1) b (pages @ [Num i])"
      by (subst push_pages.simps) simp
    also have "\<dots> = (pages @ [Num i]) @ map Num [i + 1..b]"
      using "1.IH" True by simp
    also have "\<dots> = pages @ map Num [i..b]"
      using True by (simp add: upto_rec1 [of i b])
    finally show ?thesis .
  next
    case False
    then show ?thesis
      by (subst push_pages.simps) simp
  qed
qed

lemma getPageNumbers_small:
  "totalPages \<le> 5 \<Longrightarrow> getPageNumbers currentPage totalPages = map Num [1..totalPages]"
  by (simp add: getPageNumbers_def push_pages_upto)

lemma getPageNumbers_large:
  "5 < totalPages \<Longrightarrow>
   getPageNumbers currentPage totalPages =
     [Num 1] @ (if currentPage > 3 then [Str ''...''] else [])
       @ map Num [max 2 (currentPage - 1)..min (totalPages - 1) (currentPage + 1)]
       @ (if currentPage < totalPages - 2 then [Str ''...''] else [])
       @ [Num totalPages]"
  by (simp add: getPageNumbers_def push_pages_upto Let_def)

text \<open>
  Claim C10. The component renders nothing when \<open>totalPages \<le> 1\<close>; for
  \<open>2 \<le> totalPages \<le> 5\<close> \<open>getPageNumbers\<close> returns exactly \<open>[1, 2, ..., totalPages]\<close>;
  for \<open>totalPages > 5\<close> the list begins with 1, ends with \<open>totalPages\<close>, and every
  numeric entry lies between 1 and \<open>totalPages\<close>. This holds for every \<open>currentPage\<close>.
\<close>

theorem getPageNumbers_shape:
  "(totalPages \<le> 1 \<longrightarrow> Pagination currentPage totalPages totalCount = None) \<and>
   (2 \<le> totalPages \<and> totalPages \<le> 5 \<longrightarrow>
      getPageNumbers currentPage totalPages = map Num [1..totalPages]) \<and>
   (5 < totalPages \<longrightarrow>
      hd (getPageNumbers currentPage totalPages) = Num 1 \<and>
      last (getPageNumbers currentPage totalPages) = Num totalPages \<and>
      (\<forall>n. Num n \<in> set (getPageNumbers currentPage totalPages) \<longrightarrow> 1 \<le> n \<and> n \<le> totalPages))"
proof (intro conjI impI)
  assume "totalPages \<le> 1"
  then show "Pagination currentPage totalPages totalCount = None"
    by (simp add: Pagination_def)
next
  assume "2 \<le> totalPages \<and> totalPages \<le> 5"
  then show "getPageNumbers currentPage totalPages = map Num [1..totalPages]"
    by (simp add: getPageNumbers_small)
next
  assume big: "5 < totalPages"
  show "hd (getPageNumbers currentPage totalPages) = Num 1"
    by (simp add: getPageNumbers_large [OF big])
  show "last (getPageNumbers currentPage totalPages) = Num totalPages"
    by (simp add: getPageNumbers_large [OF big])
  show "\<forall>n. Num n \<in> set (getPageNumbers currentPage totalPages) \<longrightarrow> 1 \<le> n \<and> n \<le> totalPages"
    using big by (auto simp add: getPageNumbers_large [OF big])
qed

theorem getPageNumbers_shape_witness:
  "(1::int) \<le> 1 \<and> Pagination 1 1 7 = None \<and>
   getPageNumbers 2 4 = [Num 1, Num 2, Num 3, Num 4] \<and>
   (5::int) < 10 \<and>
   getPageNumbers 5 10 = [Num 1, Str ''...'', Num 4, Num 5, Num 6, Str ''...'', Num 10] \<and>
   hd (getPageNumbers 5 10) = Num 1 \<and> last (getPageNumbers 5 10) = Num 10"
proof -
  have a: "Pagination 1 1 7 = None"
    using getPageNumbers_shape [where totalPages = 1 and currentPage = 1 and totalCount = 7]
    by simp
  have b: "getPageNumbers 2 4 = [Num 1, Num 2, Num 3, Num 4]"
    using getPageNumbers_shape [where totalPages = 4 and currentPage = 2 and totalCount = 70]
    by (simp add: upto_rec1)
  have c: "hd (getPageNumbers 5 10) = Num 1 \<and> last (getPageNumbers 5 10) = Num 10"
    using getPageNumbers_shape [where totalPages = 10 and currentPage = 5 and totalCount = 200]
    by simp
  have d: "getPageNumbers 5 10 = [Num 1, Str ''...'', Num 4, Num 5, Num 6, Str ''...'', Num 10]"
    by (simp add: getPageNumbers_large upto_rec1)
  from a b c d show ?thesis by simp
qed

section \<open>Properties of the jobs API and the jobs page\<close>

subsection \<open>The store after a handler has run\<close>

lemma fetch_jobs_store:
  "snd (fetch_jobs prisma args db) =
     snd (count prisma (args_where args) (snd (findMany prisma args db)))"
  by (simp add: fetch_jobs_def split: prod.splits)

lemma fetch_jobs_result:
  "fst (fetch_jobs prisma args db) = Inr (jobs, totalCount) \<longleftrightarrow>
     fst (findMany prisma args db) = Inr jobs \<and>
     fst (count prisma (args_where args) (snd (findMany prisma args db))) = Inr totalCount"
  by (auto simp add: fetch_jobs_def split: prod.splits sum.splits)


lemma GET_store:
  "snd (GET js prisma searchParams db) = snd (fetch_jobs prisma (GET_args js searchParams) db)"
  by (simp add: GET_def GET_try_def Let_def split: prod.splits sum.splits)

lemma JobsPage_store:
  "snd (JobsPage js prisma params db) = snd (fetch_jobs prisma (JobsPage_args js params) db)"
  by (simp add: JobsPage_def Let_def split: prod.splits sum.splits)

subsection \<open>The outcomes of the route handler\<close>





subsection \<open>The numbers of the route handler on safe integers\<close>




subsection \<open>The idealised platform and the in-memory client\<close>


lemma memory_findMany_reads: "snd (memory_findMany args d) = d"
  by (simp add: memory_findMany_def split: option.splits)

lemma memory_count_reads: "snd (memory_count w d) = d"
  by (simp add: memory_count_def)



text \<open>
  Claim C8. The browsing interface is read-only. The route handler and the jobs page
  reach the store only through \<open>findMany\<close> and \<open>count\<close>; when these two are reads (they
  leave every store as it is), every request leaves the table unchanged. The rows a
  handler serves are the rows \<open>findMany\<close> returned for the filter built from the
  request's \<open>search\<close>, \<open>location\<close> and \<open>domain\<close>, with the request's \<open>skip\<close> and \<open>take\<close>,
  and the total is what \<open>count\<close> returned for the same filter. The filter has the key
  \<open>OR\<close> (title or company contains the search text) only for a search text that is not
  empty, \<open>company_location\<close> only for such a location and \<open>domain\<close> only for such a
  domain; \<open>skip\<close> is \<open>(page - 1) * limit\<close> and \<open>take\<close> is the limit, which is 20 on the
  jobs page; the order is by the one key \<open>sortBy\<close> (by none when
  that is \<open>__proto__\<close>), and the route handler selects eight columns where the page
  selects all.
\<close>

theorem browsing_is_read_only:
  assumes findMany_reads: "\<forall>args d. snd (findMany prisma args d) = d"
      and count_reads: "\<forall>w d. snd (count prisma w d) = d"
  shows "snd (GET js prisma searchParams db) = db \<and>
         snd (JobsPage js prisma searchParams db) = db \<and>
         (\<forall>response jobs meta.
            fst (GET js prisma searchParams db) = Inr response \<and>
            body response = JobsBody jobs meta \<longrightarrow>
              fst (findMany prisma (GET_args js searchParams) db) = Inr jobs \<and>
              fst (count prisma (args_where (GET_args js searchParams)) db) =
                Inr (meta_totalCount meta)) \<and>
         (\<forall>view.
            fst (JobsPage js prisma searchParams db) = Inr view \<longrightarrow>
              (\<exists>jobs. fst (findMany prisma (JobsPage_args js searchParams) db) = Inr jobs \<and>
                 view_listing view =
                   (if jobs = [] then None
                    else Some (jobs,
                      (js_parseInt js (or_default (map_of searchParams ''page'') ''1''),
                       js_Math_ceil js (js_divide js (view_totalCount view) (js_number js 20)),
                       view_totalCount view)))) \<and>
              fst (count prisma (args_where (JobsPage_args js searchParams)) db) =
                Inr (view_totalCount view)) \<and>
         args_where (GET_args js searchParams) =
           build_where (or_default (searchParams_get searchParams ''search'') [])
                       (or_default (searchParams_get searchParams ''location'') [])
                       (or_default (searchParams_get searchParams ''domain'') []) \<and>
         args_where (JobsPage_args js searchParams) = args_where (GET_args js searchParams) \<and>
         args_take (JobsPage_args js searchParams) = js_number js 20 \<and>
         args_where (GET_args js searchParams) =
           \<lparr>where_OR =
              (case map_of searchParams ''search'' of
                 None \<Rightarrow> None
               | Some search \<Rightarrow>
                   if search = [] then None
                   else Some [(''job_title'', \<lparr>contains = search, mode = ''insensitive''\<rparr>),
                              (''company_name'', \<lparr>contains = search, mode = ''insensitive''\<rparr>)]),
            where_company_location =
              (case map_of searchParams ''location'' of
                 None \<Rightarrow> None
               | Some location \<Rightarrow>
                   if location = [] then None
                   else Some \<lparr>contains = location, mode = ''insensitive''\<rparr>),
            where_domain =
              (case map_of searchParams ''domain'' of
                 None \<Rightarrow> None
               | Some domain \<Rightarrow> if domain = [] then None else Some domain)\<rparr> \<and>
         args_skip (GET_args js searchParams) =
           js_times js
             (js_minus js (js_parseInt js (or_default (map_of searchParams ''page'') ''1''))
                (js_number js 1))
             (js_parseInt js (or_default (map_of searchParams ''limit'') ''20'')) \<and>
         args_take (GET_args js searchParams) =
           js_parseInt js (or_default (map_of searchParams ''limit'') ''20'') \<and>
         args_skip (JobsPage_args js searchParams) =
           js_times js
             (js_minus js (js_parseInt js (or_default (map_of searchParams ''page'') ''1''))
                (js_number js 1))
             (js_number js 20) \<and>
         args_select (GET_args js searchParams) =
           Some [''id'', ''job_title'', ''company_name'', ''company_location'', ''job_url'',
                 ''search_position'', ''domain'', ''scraped_at''] \<and>
         args_select (JobsPage_args js searchParams) = None \<and>
         args_orderBy (GET_args js searchParams) =
           (if or_default (map_of searchParams ''sortBy'') ''scraped_at'' = ''__proto__'' then []
            else [(or_default (map_of searchParams ''sortBy'') ''scraped_at'',
                   or_default (map_of searchParams ''sortOrder'') ''desc'')]) \<and>
         args_orderBy (JobsPage_args js searchParams) = args_orderBy (GET_args js searchParams)"
proof (intro conjI allI impI)
  show "snd (GET js prisma searchParams db) = db"
    using findMany_reads count_reads by (simp add: GET_store fetch_jobs_store)
  show "snd (JobsPage js prisma searchParams db) = db"
    using findMany_reads count_reads by (simp add: JobsPage_store fetch_jobs_store)
  show "args_where (GET_args js searchParams) =
           build_where (or_default (searchParams_get searchParams ''search'') [])
                       (or_default (searchParams_get searchParams ''location'') [])
                       (or_default (searchParams_get searchParams ''domain'') [])"
    by (simp add: GET_args_def Let_def)
  show "args_where (JobsPage_args js searchParams) = args_where (GET_args js searchParams)"
    by (simp add: GET_args_def JobsPage_args_def searchParams_get_def Let_def)
  show "args_take (JobsPage_args js searchParams) = js_number js 20"
    by (simp add: JobsPage_args_def Let_def)
  show "args_where (GET_args js searchParams) =
           \<lparr>where_OR =
              (case map_of searchParams ''search'' of
                 None \<Rightarrow> None
               | Some search \<Rightarrow>
                   if search = [] then None
                   else Some [(''job_title'', \<lparr>contains = search, mode = ''insensitive''\<rparr>),
                              (''company_name'', \<lparr>contains = search, mode = ''insensitive''\<rparr>)]),
            where_company_location =
              (case map_of searchParams ''location'' of
                 None \<Rightarrow> None
               | Some location \<Rightarrow>
                   if location = [] then None
                   else Some \<lparr>contains = location, mode = ''insensitive''\<rparr>),
            where_domain =
              (case map_of searchParams ''domain'' of
                 None \<Rightarrow> None
               | Some domain \<Rightarrow> if domain = [] then None else Some domain)\<rparr>"
    by (simp add: GET_args_def build_where_def or_default_def searchParams_get_def Let_def
          split: option.splits)
  show "args_skip (GET_args js searchParams) =
           js_times js
             (js_minus js (js_parseInt js (or_default (map_of searchParams ''page'') ''1''))
                (js_number js 1))
             (js_parseInt js (or_default (map_of searchParams ''limit'') ''20''))"
    by (simp add: GET_args_def GET_page_def GET_limit_def searchParams_get_def Let_def)
  show "args_take (GET_args js searchParams) =
           js_parseInt js (or_default (map_of searchParams ''limit'') ''20'')"
    by (simp add: GET_args_def GET_limit_def searchParams_get_def Let_def)
  show "args_skip (JobsPage_args js searchParams) =
           js_times js
             (js_minus js (js_parseInt js (or_default (map_of searchParams ''page'') ''1''))
                (js_number js 1))
             (js_number js 20)"
    by (simp add: JobsPage_args_def Let_def)
  show "args_select (GET_args js searchParams) =
           Some [''id'', ''job_title'', ''company_name'', ''company_location'', ''job_url'',
                 ''search_position'', ''domain'', ''scraped_at'']"
    by (simp add: GET_args_def selected_fields_def Let_def)
  show "args_select (JobsPage_args js searchParams) = None"
    by (simp add: JobsPage_args_def Let_def)
  show "args_orderBy (GET_args js searchParams) =
           (if or_default (map_of searchParams ''sortBy'') ''scraped_at'' = ''__proto__'' then []
            else [(or_default (map_of searchParams ''sortBy'') ''scraped_at'',
                   or_default (map_of searchParams ''sortOrder'') ''desc'')])"
    by (simp add: GET_args_def build_orderBy_def searchParams_get_def Let_def)
  show "args_orderBy (JobsPage_args js searchParams) = args_orderBy (GET_args js searchParams)"
    by (simp add: GET_args_def JobsPage_args_def searchParams_get_def Let_def)
next
  fix response jobs meta
  assume "fst (GET js prisma searchParams db) = Inr response \<and>
          body response = JobsBody jobs meta"
  then have r: "fst (GET js prisma searchParams db) = Inr response"
    and b: "body response = JobsBody jobs meta"
    by simp_all
  show "fst (findMany prisma (GET_args js searchParams) db) = Inr jobs"
       "fst (count prisma (args_where (GET_args js searchParams)) db) = Inr (meta_totalCount meta)"
  proof -
    obtain fetched db' where f: "fetch_jobs prisma (GET_args js searchParams) db = (fetched, db')"
      by (cases "fetch_jobs prisma (GET_args js searchParams) db")
    have "fetched = Inr (jobs, meta_totalCount meta)"
      using r b f
      by (cases fetched)
         (auto simp add: GET_def GET_try_def NextResponse_json_def Let_def
               split: prod.splits if_splits)
    with f have "fst (fetch_jobs prisma (GET_args js searchParams) db) =
        Inr (jobs, meta_totalCount meta)"
      by simp
    then have "fst (findMany prisma (GET_args js searchParams) db) = Inr jobs \<and>
      fst (count prisma (args_where (GET_args js searchParams))
             (snd (findMany prisma (GET_args js searchParams) db))) = Inr (meta_totalCount meta)"
      by (simp only: fetch_jobs_result)
    then show "fst (findMany prisma (GET_args js searchParams) db) = Inr jobs"
       "fst (count prisma (args_where (GET_args js searchParams)) db) = Inr (meta_totalCount meta)"
      using findMany_reads by simp_all
  qed
next
  fix view
  assume v: "fst (JobsPage js prisma searchParams db) = Inr view"
  obtain fetched db' where f: "fetch_jobs prisma (JobsPage_args js searchParams) db = (fetched, db')"
    by (cases "fetch_jobs prisma (JobsPage_args js searchParams) db")
  obtain jobs totalCount where r: "fetched = Inr (jobs, totalCount)"
    using v f by (cases fetched) (auto simp add: JobsPage_def Let_def)
  have view: "view =
      \<lparr>view_searchBar = (or_default (map_of searchParams ''search'') [],
                         or_default (map_of searchParams ''location'') [],
                         or_default (map_of searchParams ''domain'') []),
       view_totalCount = totalCount,
       view_sortBy = or_default (map_of searchParams ''sortBy'') ''scraped_at'',
       view_listing =
         (if length jobs > 0
          then Some (jobs, (js_parseInt js (or_default (map_of searchParams ''page'') ''1''),
                            js_Math_ceil js (js_divide js totalCount (js_number js 20)),
                            totalCount))
          else None)\<rparr>"
    using v f r by (simp add: JobsPage_def Let_def)
  have "fst (fetch_jobs prisma (JobsPage_args js searchParams) db) = Inr (jobs, totalCount)"
    using f r by simp
  then have q: "fst (findMany prisma (JobsPage_args js searchParams) db) = Inr jobs \<and>
      fst (count prisma (args_where (JobsPage_args js searchParams))
             (snd (findMany prisma (JobsPage_args js searchParams) db))) = Inr totalCount"
    by (simp only: fetch_jobs_result)
  show "\<exists>jobs. fst (findMany prisma (JobsPage_args js searchParams) db) = Inr jobs \<and>
          view_listing view =
            (if jobs = [] then None
             else Some (jobs,
               (js_parseInt js (or_default (map_of searchParams ''page'') ''1''),
                js_Math_ceil js (js_divide js (view_totalCount view) (js_number js 20)),
                view_totalCount view)))"
    using q view by (intro exI [of _ jobs]) auto
  show "fst (count prisma (args_where (JobsPage_args js searchParams)) db) =
          Inr (view_totalCount view)"
    using q view findMany_reads by simp
qed

theorem browsing_is_read_only_witness:
  "(\<forall>args d. snd (findMany memory_client args d) = d) \<and>
   (\<forall>w d. snd (count memory_client w d) = d) \<and>
   snd (GET exact_platform memory_client
          [(''page'', ''2''), (''limit'', ''1''), (''search'', ''engineer'')] example_jobs) =
     example_jobs \<and>
   snd (JobsPage exact_platform memory_client
          [(''page'', ''2''), (''limit'', ''1''), (''search'', ''engineer'')] example_jobs) =
     example_jobs \<and>
   fst (GET exact_platform memory_client
          [(''page'', ''2''), (''limit'', ''1''), (''search'', ''engineer'')] example_jobs) =
     Inr \<lparr>status = 200,
          body = JobsBody [example_jobs ! 1]
            \<lparr>meta_page = Fin 2, meta_limit = Fin 1, meta_totalCount = Fin 3,
             meta_totalPages = Fin 3, meta_hasMore = True\<rparr>\<rparr> \<and>
   fst (findMany memory_client
          (GET_args exact_platform [(''page'', ''2''), (''limit'', ''1''), (''search'', ''engineer'')])
          example_jobs) = Inr [example_jobs ! 1] \<and>
   fst (count memory_client
          (args_where
             (GET_args exact_platform
                [(''page'', ''2''), (''limit'', ''1''), (''search'', ''engineer'')]))
          example_jobs) = Inr (Fin 3) \<and>
   fst (JobsPage exact_platform memory_client [(''search'', ''data'')] example_jobs) =
     Inr \<lparr>view_searchBar = (''data'', [], []),
          view_totalCount = Fin 1,
          view_sortBy = ''scraped_at'',
          view_listing = Some ([example_jobs ! 0], (Fin 1, Fin 1, Fin 1))\<rparr> \<and>
   fst (findMany memory_client (JobsPage_args exact_platform [(''search'', ''data'')])
          example_jobs) = Inr [example_jobs ! 0] \<and>
   args_where (GET_args exact_platform
                 [(''page'', ''2''), (''limit'', ''1''), (''search'', ''engineer'')]) =
     \<lparr>where_OR = Some [(''job_title'', \<lparr>contains = ''engineer'', mode = ''insensitive''\<rparr>),
                       (''company_name'', \<lparr>contains = ''engineer'', mode = ''insensitive''\<rparr>)],
      where_company_location = None,
      where_domain = None\<rparr>"
proof -
  let ?req = "[(''page'', ''2''), (''limit'', ''1''), (''search'', ''engineer'')]"
  let ?data = "[(''search'', ''data'')]"
  have r1: "\<forall>args d. snd (findMany memory_client args d) = d"
    by (simp add: memory_client_def memory_findMany_reads)
  have r2: "\<forall>w d. snd (count memory_client w d) = d"
    by (simp add: memory_client_def memory_count_reads)
  note on_req = browsing_is_read_only [OF r1 r2, of exact_platform ?req example_jobs]
  note on_data = browsing_is_read_only [OF r1 r2, of exact_platform ?data example_jobs]
  have response: "fst (GET exact_platform memory_client ?req example_jobs) =
     Inr \<lparr>status = 200,
          body = JobsBody [example_jobs ! 1]
            \<lparr>meta_page = Fin 2, meta_limit = Fin 1, meta_totalCount = Fin 3,
             meta_totalPages = Fin 3, meta_hasMore = True\<rparr>\<rparr>"
    by code_simp
  have view: "fst (JobsPage exact_platform memory_client ?data example_jobs) =
     Inr \<lparr>view_searchBar = (''data'', [], []),
          view_totalCount = Fin 1,
          view_sortBy = ''scraped_at'',
          view_listing = Some ([example_jobs ! 0], (Fin 1, Fin 1, Fin 1))\<rparr>"
    by code_simp
  have stores: "snd (GET exact_platform memory_client ?req example_jobs) = example_jobs"
    "snd (JobsPage exact_platform memory_client ?req example_jobs) = example_jobs"
    using on_req by blast+
  have served: "fst (findMany memory_client (GET_args exact_platform ?req) example_jobs) =
      Inr [example_jobs ! 1] \<and>
    fst (count memory_client (args_where (GET_args exact_platform ?req)) example_jobs) =
      Inr (Fin 3)"
    using on_req [THEN conjunct2, THEN conjunct2, THEN conjunct1, rule_format,
        of "\<lparr>status = 200,
          body = JobsBody [example_jobs ! 1]
            \<lparr>meta_page = Fin 2, meta_limit = Fin 1, meta_totalCount = Fin 3,
             meta_totalPages = Fin 3, meta_hasMore = True\<rparr>\<rparr>" "[example_jobs ! 1]"
           "\<lparr>meta_page = Fin 2, meta_limit = Fin 1, meta_totalCount = Fin 3,
             meta_totalPages = Fin 3, meta_hasMore = True\<rparr>"]
      response
    by simp
  have found: "fst (findMany memory_client (JobsPage_args exact_platform ?data) example_jobs) =
      Inr [example_jobs ! 0]"
  proof -
    from on_data [THEN conjunct2, THEN conjunct2, THEN conjunct2, THEN conjunct1, rule_format,
        OF view, THEN conjunct1]
    obtain jobs where
      j: "fst (findMany memory_client (JobsPage_args exact_platform ?data) example_jobs) = Inr jobs"
      and l: "view_listing
          \<lparr>view_searchBar = (''data'', [], []),
           view_totalCount = Fin 1 :: exact_number,
           view_sortBy = ''scraped_at'',
           view_listing = Some ([example_jobs ! 0], (Fin 1, Fin 1, Fin 1))\<rparr> =
        (if jobs = [] then None
         else Some (jobs,
           (js_parseInt exact_platform (or_default (map_of ?data ''page'') ''1''),
            js_Math_ceil exact_platform
              (js_divide exact_platform
                 (view_totalCount
                    \<lparr>view_searchBar = (''data'', [], []),
                     view_totalCount = Fin 1 :: exact_number,
                     view_sortBy = ''scraped_at'',
                     view_listing = Some ([example_jobs ! 0], (Fin 1, Fin 1, Fin 1))\<rparr>)
                 (js_number exact_platform 20)),
            view_totalCount
              \<lparr>view_searchBar = (''data'', [], []),
               view_totalCount = Fin 1 :: exact_number,
               view_sortBy = ''scraped_at'',
               view_listing = Some ([example_jobs ! 0], (Fin 1, Fin 1, Fin 1))\<rparr>)))"
      by blast
    from l have "jobs = [example_jobs ! 0]"
      by (cases "jobs = []") simp_all
    with j show ?thesis by simp
  qed
  have filter: "args_where (GET_args exact_platform ?req) =
     \<lparr>where_OR = Some [(''job_title'', \<lparr>contains = ''engineer'', mode = ''insensitive''\<rparr>),
                       (''company_name'', \<lparr>contains = ''engineer'', mode = ''insensitive''\<rparr>)],
      where_company_location = None,
      where_domain = None\<rparr>"
    using on_req [THEN conjunct2, THEN conjunct2, THEN conjunct2, THEN conjunct2,
        THEN conjunct2, THEN conjunct2, THEN conjunct2, THEN conjunct1]
    by simp
  from r1 r2 stores response served view found filter show ?thesis
    by (intro conjI) simp_all
qed

section \<open>Properties of the deduplication within a batch\<close>

subsection \<open>First-seen order\<close>

lemma find_snoc:
  "find P (xs @ [x]) = (case find P xs of None \<Rightarrow> (if P x then Some x else None) | Some y \<Rightarrow> Some y)"
  by (induction xs) auto

lemma first_seen_order_snoc:
  "first_seen_order (xs @ [x]) =
     (if x \<in> set xs then first_seen_order xs else first_seen_order xs @ [x])"
  by (simp add: first_seen_order_def)

lemma set_first_seen_order: "set (first_seen_order xs) = set xs"
  by (simp add: first_seen_order_def)

lemma distinct_first_seen_order: "distinct (first_seen_order xs)"
  by (simp add: first_seen_order_def)

subsection \<open>One step of the collapse\<close>

lemma dedupe_snoc: "dedupe (rs @ [r]) = collapse_step (dedupe rs) r"
  by (simp add: dedupe_def)

lemma find_fingerprint_None:
  "find (\<lambda>k. fingerprint k = f) kept = None \<longleftrightarrow> f \<notin> fingerprint ` set kept"
  by (auto simp add: find_None_iff)

lemma find_fingerprint_Some:
  "find (\<lambda>k. fingerprint k = f) kept = Some k \<Longrightarrow> k \<in> set kept \<and> fingerprint k = f"
  by (auto simp add: find_Some_iff)

lemma collapse_step_fingerprints:
  "map fingerprint (fst (collapse_step (kept, dups) r)) =
     (if fingerprint r \<in> fingerprint ` set kept then map fingerprint kept
      else map fingerprint kept @ [fingerprint r])"
proof (cases "find (\<lambda>k. fingerprint k = fingerprint r) kept")
  case None
  then have "fingerprint r \<notin> fingerprint ` set kept"
    by (simp add: find_fingerprint_None)
  with None show ?thesis
    by (simp add: collapse_step_def)
next
  case (Some k)
  then have "fingerprint r \<in> fingerprint ` set kept"
    by (metis find_fingerprint_None option.distinct(1))
  moreover have "map fingerprint (map (\<lambda>x. if fingerprint x = fingerprint r then r else x) kept)
      = map fingerprint kept"
    by (induction kept) auto
  ultimately show ?thesis
    using Some by (simp add: collapse_step_def)
qed

lemma dedupe_fingerprints:
  "map fingerprint (fst (dedupe rs)) = first_seen_order (map fingerprint rs)"
proof (induction rs rule: rev_induct)
  case Nil
  show ?case by (simp add: dedupe_def first_seen_order_def)
next
  case (snoc r rs)
  obtain kept dups where d: "dedupe rs = (kept, dups)"
    by (cases "dedupe rs")
  with snoc have k: "map fingerprint kept = first_seen_order (map fingerprint rs)"
    by simp
  then have "fingerprint ` set kept = fingerprint ` set rs"
    by (metis set_first_seen_order set_map)
  then show ?case
    using k d by (simp add: dedupe_snoc collapse_step_fingerprints first_seen_order_snoc)
qed


lemma latest_first_seen_snoc_kept:
  assumes "latest_first_seen rs k"
      and "fingerprint r = fingerprint k \<longrightarrow> scraped_at r \<le> scraped_at k"
  shows "latest_first_seen (rs @ [r]) k"
  using assms by (auto simp add: latest_first_seen_def find_snoc)

lemma latest_first_seen_snoc_new:
  assumes "\<forall>x \<in> set rs. fingerprint x = fingerprint r \<longrightarrow> scraped_at x < scraped_at r"
  shows "latest_first_seen (rs @ [r]) r"
proof -
  have "find (\<lambda>x. fingerprint x = fingerprint r \<and> scraped_at x = scraped_at r) rs = None"
    using assms by (auto simp add: find_None_iff)
  then show ?thesis
    using assms by (auto simp add: latest_first_seen_def find_snoc)
qed

lemma collapse_step_latest:
  assumes inv: "\<forall>k \<in> set kept. latest_first_seen rs k"
      and fps: "fingerprint ` set kept = fingerprint ` set rs"
      and dist: "distinct (map fingerprint kept)"
  shows "\<forall>k \<in> set (fst (collapse_step (kept, dups) r)). latest_first_seen (rs @ [r]) k"
proof (cases "find (\<lambda>k. fingerprint k = fingerprint r) kept")
  case None
  then have new: "fingerprint r \<notin> fingerprint ` set rs"
    using fps by (simp add: find_fingerprint_None)
  then have no: "\<forall>x \<in> set rs. fingerprint x \<noteq> fingerprint r"
    by (metis imageI)
  then have "latest_first_seen (rs @ [r]) r"
    by (intro latest_first_seen_snoc_new) simp
  moreover have "\<forall>k \<in> set kept. latest_first_seen (rs @ [r]) k"
  proof
    fix k assume k: "k \<in> set kept"
    then have "fingerprint k \<in> fingerprint ` set rs"
      using fps by blast
    with new have "fingerprint r \<noteq> fingerprint k"
      by metis
    with inv k show "latest_first_seen (rs @ [r]) k"
      by (intro latest_first_seen_snoc_kept) simp_all
  qed
  ultimately show ?thesis
    using None by (simp add: collapse_step_def)
next
  case (Some k0)
  then have k0: "k0 \<in> set kept" "fingerprint k0 = fingerprint r"
    using find_fingerprint_Some [of "fingerprint r" kept k0] by simp_all
  have only: "k = k0" if "k \<in> set kept" "fingerprint k = fingerprint r" for k
  proof -
    have "inj_on fingerprint (set kept)"
      using dist by (simp add: distinct_map)
    moreover have "fingerprint k = fingerprint k0"
      using that k0 by simp
    ultimately show ?thesis
      using that k0 by (meson inj_onD)
  qed
  show ?thesis
  proof (cases "scraped_at k0 < scraped_at r")
    case True
    have "\<forall>x \<in> set rs. fingerprint x = fingerprint r \<longrightarrow> scraped_at x < scraped_at r"
      using inv k0 True by (fastforce simp add: latest_first_seen_def)
    then have r: "latest_first_seen (rs @ [r]) r"
      by (rule latest_first_seen_snoc_new)
    have "latest_first_seen (rs @ [r]) k" if "k \<in> set kept" "fingerprint k \<noteq> fingerprint r" for k
      using that inv by (intro latest_first_seen_snoc_kept) auto
    with r show ?thesis
      using Some True by (auto simp add: collapse_step_def)
  next
    case False
    have "latest_first_seen (rs @ [r]) k" if "k \<in> set kept" for k
    proof (rule latest_first_seen_snoc_kept)
      show "latest_first_seen rs k"
        using that inv by simp
      show "fingerprint r = fingerprint k \<longrightarrow> scraped_at r \<le> scraped_at k"
        using only [OF that] False by auto
    qed
    then show ?thesis
      using Some False by (simp add: collapse_step_def)
  qed
qed

lemma mset_replace:
  assumes "distinct (map fingerprint kept)" and "k0 \<in> set kept" and "fingerprint k0 = f"
  shows "mset (map (\<lambda>x. if fingerprint x = f then r else x) kept) + {#k0#} = mset kept + {#r#}"
  using assms
proof (induction kept)
  case Nil
  then show ?case by simp
next
  case (Cons x xs)
  show ?case
  proof (cases "x = k0")
    case True
    have "\<forall>y \<in> set xs. fingerprint y \<noteq> f"
      using Cons.prems True by (metis distinct.simps(2) imageI list.simps(9) set_map)
    then have "map (\<lambda>x. if fingerprint x = f then r else x) xs = xs"
      by (intro map_idI) simp
    with True Cons.prems show ?thesis by simp
  next
    case False
    then have "k0 \<in> set xs" using Cons.prems by simp
    moreover have "fingerprint x \<noteq> f"
      using Cons.prems \<open>k0 \<in> set xs\<close> by auto
    ultimately show ?thesis
      using Cons by simp
  qed
qed

lemma collapse_step_mset:
  assumes "distinct (map fingerprint kept)"
  shows "mset (fst (collapse_step (kept, dups) r)) + mset (snd (collapse_step (kept, dups) r)) =
         mset kept + mset dups + {#r#}"
proof (cases "find (\<lambda>k. fingerprint k = fingerprint r) kept")
  case None
  then show ?thesis by (simp add: collapse_step_def)
next
  case (Some k0)
  then have k0: "k0 \<in> set kept" "fingerprint k0 = fingerprint r"
    using find_fingerprint_Some [of "fingerprint r" kept k0] by simp_all
  from mset_replace [OF assms k0, of r] Some show ?thesis
    by (simp add: collapse_step_def)
qed

subsection \<open>The whole batch\<close>

lemma dedupe_distinct: "distinct (map fingerprint (fst (dedupe rs)))"
  by (simp add: dedupe_fingerprints distinct_first_seen_order)

lemma dedupe_latest: "\<forall>k \<in> set (fst (dedupe rs)). latest_first_seen rs k"
proof (induction rs rule: rev_induct)
  case Nil
  show ?case by (simp add: dedupe_def)
next
  case (snoc r rs)
  obtain kept dups where d: "dedupe rs = (kept, dups)"
    by (cases "dedupe rs")
  have "fingerprint ` set kept = fingerprint ` set rs"
    using dedupe_fingerprints [of rs] d by (metis fst_conv set_first_seen_order set_map)
  moreover have "distinct (map fingerprint kept)"
    using dedupe_distinct [of rs] d by simp
  moreover have "\<forall>k \<in> set kept. latest_first_seen rs k"
    using snoc d by simp
  ultimately show ?case
    using d collapse_step_latest [of kept rs dups r] by (simp add: dedupe_snoc)
qed

lemma dedupe_mset: "mset (fst (dedupe rs)) + mset (snd (dedupe rs)) = mset rs"
proof (induction rs rule: rev_induct)
  case Nil
  show ?case by (simp add: dedupe_def)
next
  case (snoc r rs)
  obtain kept dups where d: "dedupe rs = (kept, dups)"
    by (cases "dedupe rs")
  have "distinct (map fingerprint kept)"
    using dedupe_distinct [of rs] d by simp
  from collapse_step_mset [OF this, of dups r] snoc d show ?case
    by (simp add: dedupe_snoc)
qed

lemma dedupe_length: "length (snd (dedupe rs)) = length rs - length (fst (dedupe rs))"
proof -
  have "size (mset (fst (dedupe rs)) + mset (snd (dedupe rs))) = size (mset rs)"
    by (simp only: dedupe_mset)
  then show ?thesis by simp
qed

lemma dedupe_one_per_fingerprint:
  assumes "r \<in> set rs"
  shows "\<exists>!k. k \<in> set (fst (dedupe rs)) \<and> fingerprint k = fingerprint r"
proof -
  have "fingerprint r \<in> set (map fingerprint (fst (dedupe rs)))"
    using assms by (simp add: dedupe_fingerprints set_first_seen_order)
  then obtain k where k: "k \<in> set (fst (dedupe rs))" "fingerprint k = fingerprint r"
    by auto
  have "inj_on fingerprint (set (fst (dedupe rs)))"
    using dedupe_distinct [of rs] by (simp add: distinct_map)
  then have "k' = k" if "k' \<in> set (fst (dedupe rs))" "fingerprint k' = fingerprint r" for k'
    using that k by (metis inj_onD)
  with k show ?thesis by blast
qed

lemma normalize_and_dedupe_dedupe:
  "fst (normalize_and_dedupe field_mapping payloads) =
     fst (dedupe (validated_records field_mapping payloads)) \<and>
   intra_batch_duplicates (snd (normalize_and_dedupe field_mapping payloads)) =
     snd (dedupe (validated_records field_mapping payloads))"
  by (simp add: normalize_and_dedupe_def validated_records_def Let_def split: prod.splits)

text \<open>
  Claim C4. Among the validated records of a batch that share a fingerprint, the
  deduplication keeps exactly one: the one with the latest \<open>scraped_at\<close>, and among
  equally late ones the first seen. The kept records stand in the first-seen order of
  their fingerprints, and every other validated record is counted as an intra-batch
  duplicate. On the batch of the scenario (items 1 and 2 share a URL, item 2 is later,
  item 3 has another URL) the output is item 2's version and item 3, with one duplicate.
\<close>

theorem dedupe_keeps_latest_first_seen:
  "map fingerprint (fst (normalize_and_dedupe field_mapping payloads)) =
     first_seen_order (map fingerprint (validated_records field_mapping payloads)) \<and>
   (\<forall>r \<in> set (validated_records field_mapping payloads).
      \<exists>!k. k \<in> set (fst (normalize_and_dedupe field_mapping payloads)) \<and>
           fingerprint k = fingerprint r) \<and>
   (\<forall>k \<in> set (fst (normalize_and_dedupe field_mapping payloads)).
      latest_first_seen (validated_records field_mapping payloads) k) \<and>
   mset (fst (normalize_and_dedupe field_mapping payloads)) +
     mset (intra_batch_duplicates (snd (normalize_and_dedupe field_mapping payloads))) =
     mset (validated_records field_mapping payloads) \<and>
   length (intra_batch_duplicates (snd (normalize_and_dedupe field_mapping payloads))) =
     length (validated_records field_mapping payloads) -
     length (fst (normalize_and_dedupe field_mapping payloads)) \<and>
   normalize_and_dedupe raw_fields scenario_batch =
     ([example_record ''https://x/1'' ''Senior Data Engineer'' 200,
       example_record ''https://x/2'' ''Software Engineer'' 100],
      \<lparr>validation_failures = [],
       intra_batch_duplicates = [example_record ''https://x/1'' ''Data Engineer'' 100]\<rparr>)"
proof (intro conjI)
  note nd = normalize_and_dedupe_dedupe [of field_mapping payloads]
  show "map fingerprint (fst (normalize_and_dedupe field_mapping payloads)) =
     first_seen_order (map fingerprint (validated_records field_mapping payloads))"
    by (simp add: nd dedupe_fingerprints)
  show "\<forall>r \<in> set (validated_records field_mapping payloads).
      \<exists>!k. k \<in> set (fst (normalize_and_dedupe field_mapping payloads)) \<and>
           fingerprint k = fingerprint r"
    using dedupe_one_per_fingerprint [of _ "validated_records field_mapping payloads"]
    by (simp add: nd)
  show "\<forall>k \<in> set (fst (normalize_and_dedupe field_mapping payloads)).
      latest_first_seen (validated_records field_mapping payloads) k"
    using dedupe_latest [of "validated_records field_mapping payloads"] by (simp add: nd)
  show "mset (fst (normalize_and_dedupe field_mapping payloads)) +
     mset (intra_batch_duplicates (snd (normalize_and_dedupe field_mapping payloads))) =
     mset (validated_records field_mapping payloads)"
    by (simp add: nd dedupe_mset)
  show "length (intra_batch_duplicates (snd (normalize_and_dedupe field_mapping payloads))) =
     length (validated_records field_mapping payloads) -
     length (fst (normalize_and_dedupe field_mapping payloads))"
    by (simp add: nd dedupe_length)
  show "normalize_and_dedupe raw_fields scenario_batch =
     ([example_record ''https://x/1'' ''Senior Data Engineer'' 200,
       example_record ''https://x/2'' ''Software Engineer'' 100],
      \<lparr>validation_failures = [],
       intra_batch_duplicates = [example_record ''https://x/1'' ''Data Engineer'' 100]\<rparr>)"
    by code_simp
qed

theorem dedupe_keeps_latest_first_seen_witness:
  "validated_records raw_fields scenario_batch =
     [example_record ''https://x/1'' ''Data Engineer'' 100,
      example_record ''https://x/1'' ''Senior Data Engineer'' 200,
      example_record ''https://x/2'' ''Software Engineer'' 100] \<and>
   fst (normalize_and_dedupe raw_fields scenario_batch) =
     [example_record ''https://x/1'' ''Senior Data Engineer'' 200,
      example_record ''https://x/2'' ''Software Engineer'' 100] \<and>
   latest_first_seen
     [example_record ''https://x/1'' ''Data Engineer'' 100,
      example_record ''https://x/1'' ''Senior Data Engineer'' 200,
      example_record ''https://x/2'' ''Software Engineer'' 100]
     (example_record ''https://x/1'' ''Senior Data Engineer'' 200) \<and>
   latest_first_seen
     [example_record ''https://x/1'' ''Data Engineer'' 100,
      example_record ''https://x/1'' ''Senior Data Engineer'' 200,
      example_record ''https://x/2'' ''Software Engineer'' 100]
     (example_record ''https://x/2'' ''Software Engineer'' 100) \<and>
   length (intra_batch_duplicates (snd (normalize_and_dedupe raw_fields scenario_batch))) = 1"
proof -
  have v: "validated_records raw_fields scenario_batch =
     [example_record ''https://x/1'' ''Data Engineer'' 100,
      example_record ''https://x/1'' ''Senior Data Engineer'' 200,
      example_record ''https://x/2'' ''Software Engineer'' 100]"
    by code_simp
  note t = dedupe_keeps_latest_first_seen [of raw_fields scenario_batch]
  from t have n: "fst (normalize_and_dedupe raw_fields scenario_batch) =
     [example_record ''https://x/1'' ''Senior Data Engineer'' 200,
      example_record ''https://x/2'' ''Software Engineer'' 100]"
    by simp
  from t have "\<forall>k \<in> set (fst (normalize_and_dedupe raw_fields scenario_batch)).
      latest_first_seen (validated_records raw_fields scenario_batch) k"
    by blast
  then have l: "\<forall>k \<in> set [example_record ''https://x/1'' ''Senior Data Engineer'' 200,
                          example_record ''https://x/2'' ''Software Engineer'' 100].
      latest_first_seen
        [example_record ''https://x/1'' ''Data Engineer'' 100,
         example_record ''https://x/1'' ''Senior Data Engineer'' 200,
         example_record ''https://x/2'' ''Software Engineer'' 100] k"
    by (simp only: v n)
  from t have "length (intra_batch_duplicates (snd (normalize_and_dedupe raw_fields scenario_batch))) =
     length (validated_records raw_fields scenario_batch) -
     length (fst (normalize_and_dedupe raw_fields scenario_batch))"
    by blast
  then have d: "length (intra_batch_duplicates (snd (normalize_and_dedupe raw_fields scenario_batch))) = 1"
    by (simp add: v n)
  from v n l d show ?thesis by simp
qed

section \<open>Properties of the incremental loader\<close>

subsection \<open>Reading the table by key\<close>

lemma lookup_append:
  "lookup (s @ t) key = (case lookup s key of None \<Rightarrow> lookup t key | Some row \<Rightarrow> Some row)"
  by (induction s) (auto simp add: lookup_def)

lemma lookup_None: "lookup s key = None \<longleftrightarrow> key \<notin> (\<lambda>row. fingerprint (stored row)) ` set s"
  by (auto simp add: lookup_def find_None_iff)

lemma lookup_Cons:
  "lookup (row # s) key = (if fingerprint (stored row) = key then Some row else lookup s key)"
  by (simp add: lookup_def)

lemma lookup_Nil: "lookup [] key = None"
  by (simp add: lookup_def)

lemma stored_new_row: "stored (new_row now r) = r"
  by (simp add: new_row_def)

lemma lookup_Some_key: "lookup s k = Some row \<Longrightarrow> fingerprint (stored row) = k \<and> row \<in> set s"
  by (auto simp add: lookup_def find_Some_iff)

lemma lookup_map_same:
  "lookup (map (\<lambda>x. if fingerprint (stored x) = fingerprint r
                      then x\<lparr>stored := r, updated_at := now\<rparr> else x) s) (fingerprint r) =
     map_option (\<lambda>x. x\<lparr>stored := r, updated_at := now\<rparr>) (lookup s (fingerprint r))"
  by (induction s) (simp_all add: lookup_Nil lookup_Cons)

lemma lookup_map_other:
  "k \<noteq> fingerprint r \<Longrightarrow>
   lookup (map (\<lambda>x. if fingerprint (stored x) = fingerprint r
                      then x\<lparr>stored := r, updated_at := now\<rparr> else x) s) k = lookup s k"
  by (induction s) (simp_all add: lookup_Nil lookup_Cons)

subsection \<open>One record\<close>

lemma load_step_report:
  "fst (load_step now (report, s) r) =
     (case load_case_of s r of
        Absent \<Rightarrow> report\<lparr>inserted := inserted report + 1\<rparr>
      | Unchanged \<Rightarrow> report\<lparr>skipped_unchanged := skipped_unchanged report + 1\<rparr>
      | Changed \<Rightarrow> report\<lparr>updated := updated report + 1\<rparr>)"
  by (simp add: load_step_def load_case_of_def split: option.splits)

lemma load_step_lookup_same:
  "lookup (snd (load_step now (report, s) r)) (fingerprint r) = Some (loaded_row now s r)"
  by (simp add: load_step_def loaded_row_def lookup_append lookup_Cons lookup_Nil
        stored_new_row lookup_map_same split: option.splits)

lemma load_step_lookup_other:
  "k \<noteq> fingerprint r \<Longrightarrow> lookup (snd (load_step now (report, s) r)) k = lookup s k"
  by (auto simp add: load_step_def lookup_append lookup_Cons lookup_Nil
        stored_new_row lookup_map_other split: option.splits)

lemma load_step_filter:
  assumes "\<forall>row. P row \<longrightarrow> fingerprint (stored row) \<noteq> fingerprint r"
  shows "filter P (snd (load_step now (report, s) r)) = filter P s"
proof -
  have new: "\<not> P (new_row now r)"
    using assms by (auto simp add: stored_new_row)
  have "filter P (map (\<lambda>x. if fingerprint (stored x) = fingerprint r
                      then x\<lparr>stored := r, updated_at := now\<rparr> else x) s) = filter P s"
    using assms by (induction s) auto
  with new show ?thesis
    by (simp add: load_step_def split: option.splits)
qed

lemma load_step_keys:
  "map (\<lambda>row. fingerprint (stored row)) (snd (load_step now (report, s) r)) =
     (if lookup s (fingerprint r) = None
      then map (\<lambda>row. fingerprint (stored row)) s @ [fingerprint r]
      else map (\<lambda>row. fingerprint (stored row)) s)"
proof -
  have "map (\<lambda>row. fingerprint (stored row))
          (map (\<lambda>x. if fingerprint (stored x) = fingerprint r
                      then x\<lparr>stored := r, updated_at := now\<rparr> else x) s) =
        map (\<lambda>row. fingerprint (stored row)) s"
    by (induction s) auto
  then show ?thesis
    by (auto simp add: load_step_def stored_new_row split: option.splits)
qed

lemma load_step_consistent:
  assumes "consistent s"
  shows "consistent (snd (load_step now (report, s) r))"
  using assms unfolding consistent_def load_step_keys
  by (auto simp add: lookup_None)


subsection \<open>A sequence of records with distinct fingerprints\<close>

lemma load_case_of_cong:
  "lookup s' (fingerprint r) = lookup s (fingerprint r) \<Longrightarrow> load_case_of s' r = load_case_of s r"
  by (simp add: load_case_of_def)

lemma loaded_row_cong:
  "lookup s' (fingerprint r) = lookup s (fingerprint r) \<Longrightarrow> loaded_row now s' r = loaded_row now s r"
  by (simp add: loaded_row_def)

lemma load_case_of_loaded:
  "lookup s' (fingerprint r) = Some (loaded_row now s r) \<Longrightarrow> load_case_of s' r = Unchanged"
  by (auto simp add: load_case_of_def loaded_row_def stored_new_row comparable_def
        split: option.splits)

lemma loads_lookup_other:
  assumes "\<forall>r \<in> set rs. fingerprint r \<noteq> k"
  shows "lookup (snd (foldl (load_step now) (report, s) rs)) k = lookup s k"
  using assms
proof (induction rs arbitrary: report s)
  case Nil
  show ?case by simp
next
  case (Cons x xs)
  obtain report1 s1 where step: "load_step now (report, s) x = (report1, s1)"
    by (cases "load_step now (report, s) x")
  have "k \<noteq> fingerprint x"
    using Cons.prems by auto
  then have "lookup s1 k = lookup s k"
    using load_step_lookup_other [of k x now report s] step by simp
  moreover have "lookup (snd (foldl (load_step now) (report1, s1) xs)) k = lookup s1 k"
    using Cons.prems by (intro Cons.IH) simp
  ultimately show ?case
    using step by simp
qed

lemma loads_lookup_same:
  assumes "distinct (map fingerprint rs)" and "r \<in> set rs"
  shows "lookup (snd (foldl (load_step now) (report, s) rs)) (fingerprint r) =
           Some (loaded_row now s r)"
  using assms
proof (induction rs arbitrary: report s)
  case Nil
  then show ?case by simp
next
  case (Cons x xs)
  obtain report1 s1 where step: "load_step now (report, s) x = (report1, s1)"
    by (cases "load_step now (report, s) x")
  have others: "\<forall>r' \<in> set xs. fingerprint r' \<noteq> fingerprint x"
    using Cons.prems(1) by (metis distinct.simps(2) imageI list.simps(9) set_map)
  show ?case
  proof (cases "r = x")
    case True
    have "lookup s1 (fingerprint x) = Some (loaded_row now s x)"
      using load_step_lookup_same [of now report s x] step by simp
    moreover have "lookup (snd (foldl (load_step now) (report1, s1) xs)) (fingerprint x) =
        lookup s1 (fingerprint x)"
      using others by (rule loads_lookup_other)
    ultimately show ?thesis
      using step True by simp
  next
    case False
    then have r: "r \<in> set xs"
      using Cons.prems by simp
    then have "fingerprint r \<noteq> fingerprint x"
      using others by simp
    then have "lookup s1 (fingerprint r) = lookup s (fingerprint r)"
      using load_step_lookup_other [of "fingerprint r" x now report s] step by simp
    then have "loaded_row now s1 r = loaded_row now s r"
      by (rule loaded_row_cong)
    moreover have "lookup (snd (foldl (load_step now) (report1, s1) xs)) (fingerprint r) =
        Some (loaded_row now s1 r)"
      using Cons.prems r by (intro Cons.IH) simp_all
    ultimately show ?thesis
      using step by simp
  qed
qed

lemma loads_report:
  assumes "distinct (map fingerprint rs)"
  shows "fst (foldl (load_step now) (report, s) rs) =
           report\<lparr>inserted := inserted report + length (filter (\<lambda>r. load_case_of s r = Absent) rs),
                  updated := updated report + length (filter (\<lambda>r. load_case_of s r = Changed) rs),
                  skipped_unchanged :=
                    skipped_unchanged report + length (filter (\<lambda>r. load_case_of s r = Unchanged) rs)\<rparr>"
  using assms
proof (induction rs arbitrary: report s)
  case Nil
  show ?case by simp
next
  case (Cons x xs)
  obtain report1 s1 where step: "load_step now (report, s) x = (report1, s1)"
    by (cases "load_step now (report, s) x")
  have others: "\<forall>r' \<in> set xs. fingerprint r' \<noteq> fingerprint x"
    using Cons.prems(1) by (metis distinct.simps(2) imageI list.simps(9) set_map)
  have same: "load_case_of s1 r' = load_case_of s r'" if "r' \<in> set xs" for r'
  proof (rule load_case_of_cong)
    show "lookup s1 (fingerprint r') = lookup s (fingerprint r')"
      using load_step_lookup_other [of "fingerprint r'" x now report s] step others that by simp
  qed
  have f: "filter (\<lambda>r. load_case_of s1 r = c) xs = filter (\<lambda>r. load_case_of s r = c) xs" for c
    using same by (intro filter_cong) simp_all
  have report1: "report1 =
     (case load_case_of s x of
        Absent \<Rightarrow> report\<lparr>inserted := inserted report + 1\<rparr>
      | Unchanged \<Rightarrow> report\<lparr>skipped_unchanged := skipped_unchanged report + 1\<rparr>
      | Changed \<Rightarrow> report\<lparr>updated := updated report + 1\<rparr>)"
    using load_step_report [of now report s x] step by simp
  have "fst (foldl (load_step now) (report1, s1) xs) =
           report1\<lparr>inserted := inserted report1 + length (filter (\<lambda>r. load_case_of s1 r = Absent) xs),
                  updated := updated report1 + length (filter (\<lambda>r. load_case_of s1 r = Changed) xs),
                  skipped_unchanged :=
                    skipped_unchanged report1 + length (filter (\<lambda>r. load_case_of s1 r = Unchanged) xs)\<rparr>"
    using Cons.prems by (intro Cons.IH) simp
  then show ?case
    using step report1 by (cases "load_case_of s x") (simp_all add: f)
qed

lemma loads_filter:
  assumes "\<forall>row. P row \<longrightarrow> fingerprint (stored row) \<notin> fingerprint ` set rs"
  shows "filter P (snd (foldl (load_step now) (report, s) rs)) = filter P s"
  using assms
proof (induction rs arbitrary: report s)
  case Nil
  show ?case by simp
next
  case (Cons x xs)
  obtain report1 s1 where step: "load_step now (report, s) x = (report1, s1)"
    by (cases "load_step now (report, s) x")
  have "filter P s1 = filter P s"
    using load_step_filter [of P x now report s] Cons.prems step by simp
  moreover have "filter P (snd (foldl (load_step now) (report1, s1) xs)) = filter P s1"
    using Cons.prems by (intro Cons.IH) simp
  ultimately show ?case
    using step by simp
qed

lemma loads_consistent:
  assumes "consistent s"
  shows "consistent (snd (foldl (load_step now) (report, s) rs))"
  using assms
proof (induction rs arbitrary: report s)
  case Nil
  then show ?case by simp
next
  case (Cons x xs)
  obtain report1 s1 where step: "load_step now (report, s) x = (report1, s1)"
    by (cases "load_step now (report, s) x")
  have "consistent s1"
    using load_step_consistent [OF Cons.prems, of now report x] step by simp
  then have "consistent (snd (foldl (load_step now) (report1, s1) xs))"
    by (rule Cons.IH)
  then show ?case
    using step by simp
qed

lemma loads_all_unchanged:
  assumes "\<forall>r \<in> set rs. load_case_of s r = Unchanged"
  shows "foldl (load_step now) (report, s) rs =
           (report\<lparr>skipped_unchanged := skipped_unchanged report + length rs\<rparr>, s)"
  using assms
proof (induction rs arbitrary: report)
  case Nil
  show ?case by simp
next
  case (Cons r rs)
  have step: "load_step now (report, s) r =
      (report\<lparr>skipped_unchanged := skipped_unchanged report + 1\<rparr>, s)"
    using Cons.prems
    by (auto simp add: load_step_def load_case_of_def split: option.splits if_splits)
  have "foldl (load_step now) (report\<lparr>skipped_unchanged := skipped_unchanged report + 1\<rparr>, s) rs =
      ((report\<lparr>skipped_unchanged := skipped_unchanged report + 1\<rparr>)
         \<lparr>skipped_unchanged :=
            skipped_unchanged (report\<lparr>skipped_unchanged := skipped_unchanged report + 1\<rparr>) + length rs\<rparr>, s)"
    using Cons.prems by (intro Cons.IH) simp
  with step show ?case by simp
qed

text \<open>
  Claim C1, as amended. For every sequence of records with pairwise distinct
  fingerprints and every store, loading the sequence twice gives a second report with
  \<open>inserted = 0\<close>, \<open>updated = 0\<close> (and \<open>skipped_unchanged = N\<close>) and a second load that
  leaves the store as the first load left it. The first report counts the three cases
  of section 4.5 against the store as it was: \<open>inserted\<close> is the number of records whose
  fingerprint the store did not hold and \<open>updated\<close> the number it held with a different
  comparable field, so that \<open>inserted = N\<close>, \<open>updated = 0\<close> when the store held none of
  them. After the first load the store holds for every record the row of its case, the
  rows of other fingerprints are as they were, and a consistent store is still
  consistent.
\<close>

theorem load_twice:
  assumes "distinct (map fingerprint records)"
  shows "fst (load t1 records s) =
           \<lparr>inserted = length (filter (\<lambda>r. load_case_of s r = Absent) records),
            updated = length (filter (\<lambda>r. load_case_of s r = Changed) records),
            skipped_unchanged = length (filter (\<lambda>r. load_case_of s r = Unchanged) records)\<rparr> \<and>
         ((\<forall>r \<in> set records. lookup s (fingerprint r) = None) \<longrightarrow>
            fst (load t1 records s) =
              \<lparr>inserted = length records, updated = 0, skipped_unchanged = 0\<rparr>) \<and>
         fst (load t2 records (snd (load t1 records s))) =
           \<lparr>inserted = 0, updated = 0, skipped_unchanged = length records\<rparr> \<and>
         snd (load t2 records (snd (load t1 records s))) = snd (load t1 records s) \<and>
         (\<forall>r \<in> set records.
            lookup (snd (load t1 records s)) (fingerprint r) = Some (loaded_row t1 s r)) \<and>
         filter (\<lambda>row. fingerprint (stored row) \<notin> fingerprint ` set records)
                (snd (load t1 records s)) =
           filter (\<lambda>row. fingerprint (stored row) \<notin> fingerprint ` set records) s \<and>
         (consistent s \<longrightarrow> consistent (snd (load t1 records s)))"
proof (intro conjI)
  let ?zero = "\<lparr>inserted = 0, updated = 0, skipped_unchanged = 0\<rparr>"
  let ?s1 = "snd (load t1 records s)"
  show first: "fst (load t1 records s) =
           \<lparr>inserted = length (filter (\<lambda>r. load_case_of s r = Absent) records),
            updated = length (filter (\<lambda>r. load_case_of s r = Changed) records),
            skipped_unchanged = length (filter (\<lambda>r. load_case_of s r = Unchanged) records)\<rparr>"
    using loads_report [OF assms, of t1 ?zero s] by (simp add: load_def)
  show "(\<forall>r \<in> set records. lookup s (fingerprint r) = None) \<longrightarrow>
            fst (load t1 records s) =
              \<lparr>inserted = length records, updated = 0, skipped_unchanged = 0\<rparr>"
  proof
    assume "\<forall>r \<in> set records. lookup s (fingerprint r) = None"
    then have "\<forall>r \<in> set records. load_case_of s r = Absent"
      by (simp add: load_case_of_def)
    then show "fst (load t1 records s) =
        \<lparr>inserted = length records, updated = 0, skipped_unchanged = 0\<rparr>"
      by (simp add: first)
  qed
  show held: "\<forall>r \<in> set records.
      lookup ?s1 (fingerprint r) = Some (loaded_row t1 s r)"
    using loads_lookup_same [OF assms, of _ t1 ?zero s] by (simp add: load_def)
  then have "\<forall>r \<in> set records. load_case_of ?s1 r = Unchanged"
    using load_case_of_loaded by blast
  then have second: "load t2 records ?s1 =
      (\<lparr>inserted = 0, updated = 0, skipped_unchanged = length records\<rparr>, ?s1)"
    using loads_all_unchanged [of records ?s1 t2 ?zero] by (simp add: load_def)
  from second show "fst (load t2 records ?s1) =
      \<lparr>inserted = 0, updated = 0, skipped_unchanged = length records\<rparr>"
    by simp
  from second show "snd (load t2 records ?s1) = ?s1"
    by simp
  show "filter (\<lambda>row. fingerprint (stored row) \<notin> fingerprint ` set records) ?s1 =
           filter (\<lambda>row. fingerprint (stored row) \<notin> fingerprint ` set records) s"
    using loads_filter [of "\<lambda>row. fingerprint (stored row) \<notin> fingerprint ` set records"
                          records t1 ?zero s]
    by (simp add: load_def)
  show "consistent s \<longrightarrow> consistent ?s1"
    using loads_consistent [of s t1 ?zero records] by (simp add: load_def)
qed

theorem load_twice_witness:
  "distinct (map fingerprint
     [example_record ''https://x/1'' ''Senior Data Engineer'' 200,
      example_record ''https://x/2'' ''Software Engineer'' 100]) \<and>
   fst (load 5 [example_record ''https://x/1'' ''Senior Data Engineer'' 200,
                example_record ''https://x/2'' ''Software Engineer'' 100]
          [new_row 4 (example_record ''https://x/1'' ''Data Engineer'' 100),
           new_row 4 (example_record ''https://x/3'' ''Analyst'' 50)]) =
     \<lparr>inserted = 1, updated = 1, skipped_unchanged = 0\<rparr> \<and>
   snd (load 5 [example_record ''https://x/1'' ''Senior Data Engineer'' 200,
                example_record ''https://x/2'' ''Software Engineer'' 100]
          [new_row 4 (example_record ''https://x/1'' ''Data Engineer'' 100),
           new_row 4 (example_record ''https://x/3'' ''Analyst'' 50)]) =
     [\<lparr>stored = example_record ''https://x/1'' ''Senior Data Engineer'' 200,
       inserted_at = 4, updated_at = 5\<rparr>,
      new_row 4 (example_record ''https://x/3'' ''Analyst'' 50),
      new_row 5 (example_record ''https://x/2'' ''Software Engineer'' 100)] \<and>
   load 6 [example_record ''https://x/1'' ''Senior Data Engineer'' 200,
           example_record ''https://x/2'' ''Software Engineer'' 100]
     [\<lparr>stored = example_record ''https://x/1'' ''Senior Data Engineer'' 200,
       inserted_at = 4, updated_at = 5\<rparr>,
      new_row 4 (example_record ''https://x/3'' ''Analyst'' 50),
      new_row 5 (example_record ''https://x/2'' ''Software Engineer'' 100)] =
     (\<lparr>inserted = 0, updated = 0, skipped_unchanged = 2\<rparr>,
      [\<lparr>stored = example_record ''https://x/1'' ''Senior Data Engineer'' 200,
        inserted_at = 4, updated_at = 5\<rparr>,
       new_row 4 (example_record ''https://x/3'' ''Analyst'' 50),
       new_row 5 (example_record ''https://x/2'' ''Software Engineer'' 100)]) \<and>
   fst (load 5 [example_record ''https://x/1'' ''Senior Data Engineer'' 200,
                example_record ''https://x/2'' ''Software Engineer'' 100] []) =
     \<lparr>inserted = 2, updated = 0, skipped_unchanged = 0\<rparr> \<and>
   fst (load 6 [example_record ''https://x/1'' ''Senior Data Engineer'' 200,
                example_record ''https://x/2'' ''Software Engineer'' 100]
          (snd (load 5 [example_record ''https://x/1'' ''Senior Data Engineer'' 200,
                        example_record ''https://x/2'' ''Software Engineer'' 100] []))) =
     \<lparr>inserted = 0, updated = 0, skipped_unchanged = 2\<rparr>"
proof -
  let ?rs = "[example_record ''https://x/1'' ''Senior Data Engineer'' 200,
              example_record ''https://x/2'' ''Software Engineer'' 100]"
  let ?s0 = "[new_row 4 (example_record ''https://x/1'' ''Data Engineer'' 100),
              new_row 4 (example_record ''https://x/3'' ''Analyst'' 50)]"
  let ?s1 = "[\<lparr>stored = example_record ''https://x/1'' ''Senior Data Engineer'' 200,
               inserted_at = 4, updated_at = 5\<rparr>,
              new_row 4 (example_record ''https://x/3'' ''Analyst'' 50),
              new_row 5 (example_record ''https://x/2'' ''Software Engineer'' 100)]"
  have d: "distinct (map fingerprint ?rs)"
    by (simp add: fingerprint_def example_record_def)
  have s1: "snd (load 5 ?rs ?s0) = ?s1"
    by code_simp
  have cases: "length (filter (\<lambda>r. load_case_of ?s0 r = Absent) ?rs) = 1"
    "length (filter (\<lambda>r. load_case_of ?s0 r = Changed) ?rs) = 1"
    "length (filter (\<lambda>r. load_case_of ?s0 r = Unchanged) ?rs) = 0"
    by code_simp+
  note stored = load_twice [OF d, of 5 ?s0 6]
  note empty = load_twice [OF d, of 5 "[]" 6]
  have "fst (load 5 ?rs ?s0) =
      \<lparr>inserted = length (filter (\<lambda>r. load_case_of ?s0 r = Absent) ?rs),
       updated = length (filter (\<lambda>r. load_case_of ?s0 r = Changed) ?rs),
       skipped_unchanged = length (filter (\<lambda>r. load_case_of ?s0 r = Unchanged) ?rs)\<rparr>"
    using stored by blast
  then have first: "fst (load 5 ?rs ?s0) = \<lparr>inserted = 1, updated = 1, skipped_unchanged = 0\<rparr>"
    by (simp only: cases)
  have "fst (load 6 ?rs (snd (load 5 ?rs ?s0))) =
          \<lparr>inserted = 0, updated = 0, skipped_unchanged = length ?rs\<rparr> \<and>
        snd (load 6 ?rs (snd (load 5 ?rs ?s0))) = snd (load 5 ?rs ?s0)"
    using stored by blast
  then have second: "load 6 ?rs ?s1 = (\<lparr>inserted = 0, updated = 0, skipped_unchanged = 2\<rparr>, ?s1)"
    by (simp add: s1 prod_eq_iff)
  have absent: "\<forall>r \<in> set ?rs. lookup [] (fingerprint r) = None"
    by (simp add: lookup_Nil)
  have "fst (load 5 ?rs []) = \<lparr>inserted = length ?rs, updated = 0, skipped_unchanged = 0\<rparr>"
    using empty absent by blast
  then have e1: "fst (load 5 ?rs []) = \<lparr>inserted = 2, updated = 0, skipped_unchanged = 0\<rparr>"
    by simp
  have "fst (load 6 ?rs (snd (load 5 ?rs []))) =
      \<lparr>inserted = 0, updated = 0, skipped_unchanged = length ?rs\<rparr>"
    using empty by blast
  then have e2: "fst (load 6 ?rs (snd (load 5 ?rs []))) =
      \<lparr>inserted = 0, updated = 0, skipped_unchanged = 2\<rparr>"
    by simp
  from d first s1 second e1 e2 show ?thesis by simp
qed

text \<open>
  The claim as stated, for every sequence and every consistent store, fails in two ways.
  On a sequence in which two records share a fingerprint and differ in a comparable
  field, loaded into the empty store, the first load inserts one and updates one, and
  the second load updates both. And on a consistent store that already holds the one
  record of the sequence, the first load inserts nothing.
\<close>

theorem load_twice_counterexample:
  "consistent [] \<and>
   length [example_record ''https://x/1'' ''Data Engineer'' 100,
           example_record ''https://x/1'' ''Senior Data Engineer'' 200] = 2 \<and>
   fst (load 5 [example_record ''https://x/1'' ''Data Engineer'' 100,
                example_record ''https://x/1'' ''Senior Data Engineer'' 200] []) =
     \<lparr>inserted = 1, updated = 1, skipped_unchanged = 0\<rparr> \<and>
   fst (load 6 [example_record ''https://x/1'' ''Data Engineer'' 100,
                example_record ''https://x/1'' ''Senior Data Engineer'' 200]
          (snd (load 5 [example_record ''https://x/1'' ''Data Engineer'' 100,
                        example_record ''https://x/1'' ''Senior Data Engineer'' 200] []))) =
     \<lparr>inserted = 0, updated = 2, skipped_unchanged = 0\<rparr> \<and>
   consistent [new_row 4 (example_record ''https://x/1'' ''Data Engineer'' 100)] \<and>
   fst (load 5 [example_record ''https://x/1'' ''Data Engineer'' 100]
          [new_row 4 (example_record ''https://x/1'' ''Data Engineer'' 100)]) =
     \<lparr>inserted = 0, updated = 0, skipped_unchanged = 1\<rparr>"
proof (intro conjI)
  show "consistent [new_row 4 (example_record ''https://x/1'' ''Data Engineer'' 100)]"
    by (simp add: consistent_def)
  show "fst (load 5 [example_record ''https://x/1'' ''Data Engineer'' 100]
          [new_row 4 (example_record ''https://x/1'' ''Data Engineer'' 100)]) =
     \<lparr>inserted = 0, updated = 0, skipped_unchanged = 1\<rparr>"
    by code_simp
  show "consistent []"
    by (simp add: consistent_def)
  show "length [example_record ''https://x/1'' ''Data Engineer'' 100,
           example_record ''https://x/1'' ''Senior Data Engineer'' 200] = 2"
    by simp
  show "fst (load 5 [example_record ''https://x/1'' ''Data Engineer'' 100,
                example_record ''https://x/1'' ''Senior Data Engineer'' 200] []) =
     \<lparr>inserted = 1, updated = 1, skipped_unchanged = 0\<rparr>"
    by code_simp
  show "fst (load 6 [example_record ''https://x/1'' ''Data Engineer'' 100,
                example_record ''https://x/1'' ''Senior Data Engineer'' 200]
          (snd (load 5 [example_record ''https://x/1'' ''Data Engineer'' 100,
                        example_record ''https://x/1'' ''Senior Data Engineer'' 200] []))) =
     \<lparr>inserted = 0, updated = 2, skipped_unchanged = 0\<rparr>"
    by code_simp
qed

end
